theory Spec2Isabelle
  imports Main
begin

unbundle bit_operations_syntax

section \<open>Data model of the WiFi provider\<close>

text \<open>
  The provider of \<^verbatim>\<open>src/client/context/WiFiContext.tsx\<close> keeps its state in React state
  cells (\<^verbatim>\<open>devices\<close>, \<^verbatim>\<open>connectedDevice\<close>, \<^verbatim>\<open>isScanning\<close>, \<^verbatim>\<open>udpSocket\<close>) and two refs
  (\<^verbatim>\<open>seqRef\<close>, \<^verbatim>\<open>lastRegionsRef\<close>). Strings are lists of characters (the characters of HOL
  are bytes; the program treats every character outside ASCII like any other character
  that is not a hexadecimal digit), JavaScript numbers
  that only ever hold small non-negative integers are natural numbers, and a byte buffer is a
  list of naturals below 256. The field \<^verbatim>\<open>id\<close> of a device is called \<open>dev_id\<close>, because
  \<open>id\<close> is the identity function of HOL.
\<close>

datatype platform = Web | Native

record WiFiDevice =
  dev_id :: string
  name :: string
  ipAddress :: string
  port :: nat
  rssi :: "int option"
  isConnected :: bool

text \<open>The argument of \<^verbatim>\<open>sendRegionColors\<close>: one colour string for each region.\<close>

record region_colors =
  top_region :: string
  right_region :: string
  bottom_region :: string
  left_region :: string

text \<open>
  A socket made by \<^verbatim>\<open>dgram.createSocket\<close> is a handle. What the transport does with a
  datagram handed to \<^verbatim>\<open>socket.send\<close> is outside the program: the call may complete, may
  report an error to its callback, or may throw into the enclosing \<^verbatim>\<open>catch\<close>. In all three
  cases the program only writes to the console, which is not part of the model.
\<close>

type_synonym socket = nat

datatype send_outcome = SendOk | SendCallbackError | SendThrows

record datagram =
  via :: socket
  packet :: "nat list"
  toPort :: nat
  toAddress :: string
  outcome :: send_outcome

text \<open>
  What a call reads from its surroundings: the platform (\<^verbatim>\<open>Platform.OS\<close>), whether
  \<^verbatim>\<open>react-native-udp\<close> can be loaded and offers \<^verbatim>\<open>createSocket\<close>, whether the location
  permissions are granted, the clock (\<^verbatim>\<open>Date.now()\<close>) and the fate of a send.
\<close>

record env =
  platformOS :: platform
  udpSupported :: bool
  permissionsGranted :: bool
  dateNow :: nat
  sendOutcome :: send_outcome

text \<open>
  The state of the provider together with the part of the world it acts on: the sockets
  that are open, the callbacks and timers that are pending, and the datagrams handed to
  \<^verbatim>\<open>socket.send\<close>, oldest first.
\<close>

record provider =
  devices :: "WiFiDevice list"
  connectedDevice :: "WiFiDevice option"
  isScanning :: bool
  udpSocket :: "socket option"
  seqRef :: nat
  lastRegionsRef :: "string list"
  openSockets :: "socket list"
  nextSocket :: socket
  connectBinds :: "(socket \<times> WiFiDevice) list"
  scanBinds :: "socket list"
  scanIntervals :: "socket list"
  scanTimeouts :: "socket list"
  mockTimeouts :: nat
  wire :: "datagram list"

definition ESP_UDP_PORT :: nat where
  "ESP_UDP_PORT = 7777"

definition BROADCAST_PORT :: nat where
  "BROADCAST_PORT = 7778"

section \<open>Colour strings to bytes\<close>

text \<open>
  \<^verbatim>\<open>hexToRgbBytes\<close> runs the regular expression
  \<^verbatim>\<open>/^#?([a-f\d]{2})([a-f\d]{2})([a-f\d]{2})$/i\<close>. The class \<^verbatim>\<open>[a-f\d]\<close> under the flag
  \<^verbatim>\<open>i\<close> holds the ten digits and the letters a to f in either case.
\<close>

definition hexClass :: "char \<Rightarrow> bool" where
  "hexClass c = (c \<in> set ''0123456789abcdefABCDEF'')"

text \<open>The three groups followed by the end of the input: exactly six characters of the class.\<close>

fun hexGroups :: "string \<Rightarrow> (string \<times> string \<times> string) option" where
  "hexGroups [a, b, c, d, e, f] =
     (if hexClass a \<and> hexClass b \<and> hexClass c \<and> hexClass d \<and> hexClass e \<and> hexClass f
      then Some ([a, b], [c, d], [e, f]) else None)"
| "hexGroups _ = None"

text \<open>
  The optional \<^verbatim>\<open>#\<close> is greedy: the matcher first consumes a leading \<^verbatim>\<open>#\<close> and, when the
  rest does not match, backtracks and tries the groups on the whole input.
\<close>

definition hexRegexExec :: "string \<Rightarrow> (string \<times> string \<times> string) option" where
  "hexRegexExec hex =
     (case hex of
        [] \<Rightarrow> hexGroups []
      | ch # rest \<Rightarrow>
          if ch = CHR ''#'' then
            (case hexGroups rest of Some r \<Rightarrow> Some r | None \<Rightarrow> hexGroups hex)
          else hexGroups hex)"

definition hexDigitValue :: "char \<Rightarrow> nat" where
  "hexDigitValue c =
     (let n = (of_char c :: nat) in
      if 48 \<le> n \<and> n \<le> 57 then n - 48
      else if 97 \<le> n \<and> n \<le> 102 then n - 87
      else if 65 \<le> n \<and> n \<le> 70 then n - 55
      else 0)"

text \<open>\<^verbatim>\<open>parseInt(s, 16)\<close> on a string of hexadecimal digits.\<close>

definition parseInt16 :: "string \<Rightarrow> nat" where
  "parseInt16 s = foldl (\<lambda>acc c. 16 * acc + hexDigitValue c) 0 s"

definition hexToRgbBytes :: "string \<Rightarrow> nat list" where
  "hexToRgbBytes hex =
     (case hexRegexExec hex of
        None \<Rightarrow> [0, 0, 0]
      | Some (r1, r2, r3) \<Rightarrow> [parseInt16 r1, parseInt16 r2, parseInt16 r3])"

section \<open>Buffers\<close>

text \<open>\<^verbatim>\<open>Buffer.from(array)\<close> keeps the low eight bits of every element.\<close>

definition Buffer_from :: "nat list \<Rightarrow> nat list" where
  "Buffer_from xs = map (\<lambda>v. v AND 255) xs"

text \<open>
  \<^verbatim>\<open>writeUInt8\<close> and \<^verbatim>\<open>writeUInt16BE\<close> throw a range error on a value that does not fit,
  which is \<open>None\<close> here; otherwise they store the value at the offset, high byte first.
\<close>

definition writeUInt8 :: "nat list \<Rightarrow> nat \<Rightarrow> nat \<Rightarrow> nat list option" where
  "writeUInt8 buf v off =
     (if v \<le> 255 \<and> off + 1 \<le> length buf then Some (buf[off := v]) else None)"

definition writeUInt16BE :: "nat list \<Rightarrow> nat \<Rightarrow> nat \<Rightarrow> nat list option" where
  "writeUInt16BE buf v off =
     (if v \<le> 65535 \<and> off + 2 \<le> length buf
      then Some (buf[off := drop_bit 8 v, off + 1 := v AND 255]) else None)"

text \<open>
  The header of a colour frame, written into a buffer of eight bytes. The source takes the
  buffer from \<^verbatim>\<open>Buffer.allocUnsafe(8)\<close>, whose content is arbitrary, so the buffer is an
  argument here. The five writes cover all eight bytes, and the header is the same for
  every buffer of that length (\<open>writeHeader_bytes\<close> below).
\<close>

definition MAGIC :: nat where
  "MAGIC = 0xabcd"

definition version :: nat where
  "version = 1"

definition writeHeader :: "nat list \<Rightarrow> nat \<Rightarrow> nat \<Rightarrow> nat \<Rightarrow> nat list option" where
  "writeHeader buf flags seq ts =
     Option.bind (writeUInt16BE buf MAGIC 0) (\<lambda>b1.
     Option.bind (writeUInt8 b1 version 2) (\<lambda>b2.
     Option.bind (writeUInt8 b2 flags 3) (\<lambda>b3.
     Option.bind (writeUInt16BE b3 seq 4) (\<lambda>b4.
     writeUInt16BE b4 ts 6))))"

section \<open>Sending region colours\<close>

definition regionsOf :: "region_colors \<Rightarrow> string list" where
  "regionsOf colors =
     [top_region colors, right_region colors, bottom_region colors, left_region colors]"

text \<open>Reading an array element in JavaScript: \<^verbatim>\<open>undefined\<close> (here \<open>None\<close>) out of range.\<close>

definition js_index :: "'a list \<Rightarrow> nat \<Rightarrow> 'a option" where
  "js_index xs i = (if i < length xs then Some (xs ! i) else None)"

text \<open>
  The loop that detects the changed regions: \<open>i\<close> runs over the indices of \<open>regions\<close>, and
  an index is pushed when the element differs (\<^verbatim>\<open>!==\<close>) from the one last sent.
\<close>

function detectChanged :: "string list \<Rightarrow> string list \<Rightarrow> nat \<Rightarrow> nat list \<Rightarrow> nat list" where
  "detectChanged regions lastRegions i changedIndexes =
     (if i < length regions then
        detectChanged regions lastRegions (i + 1)
          (if js_index regions i \<noteq> js_index lastRegions i then changedIndexes @ [i]
           else changedIndexes)
      else changedIndexes)"
  by pat_completeness auto
termination
  by (relation "measure (\<lambda>(regions, lastRegions, i, changedIndexes). length regions - i)") auto

text \<open>The two payload loops, each pushing onto an array that starts empty.\<close>

definition deltaEntries :: "string list \<Rightarrow> nat list \<Rightarrow> nat list" where
  "deltaEntries regions changedIndexes =
     foldl (\<lambda>entries idx.
              (let rgb = hexToRgbBytes (regions ! idx)
               in entries @ [idx, rgb ! 0, rgb ! 1, rgb ! 2]))
       [] changedIndexes"

definition fullValues :: "string list \<Rightarrow> nat list" where
  "fullValues regions = foldl (\<lambda>rgbValues color. rgbValues @ hexToRgbBytes color) [] regions"

definition buildPayload :: "string list \<Rightarrow> nat list \<Rightarrow> bool \<Rightarrow> nat list" where
  "buildPayload regions changedIndexes isDelta =
     (if isDelta then Buffer_from ([2, length changedIndexes] @ deltaEntries regions changedIndexes)
      else Buffer_from (1 # fullValues regions))"

text \<open>
  \<^verbatim>\<open>sendRegionColors\<close>. The guards are in the order of the source: no connected device
  returns at once; then the changed regions are detected and the regions last sent are
  replaced; then the web platform and a missing socket return. Inside the \<^verbatim>\<open>try\<close> the
  counter is advanced before the header is written; a range error of a write would leave
  the counter advanced and hand nothing to the socket. The eight zeros stand for the
  content of the fresh header buffer, which the writes replace.
\<close>

definition sendRegionColors :: "env \<Rightarrow> region_colors \<Rightarrow> provider \<Rightarrow> provider" where
  "sendRegionColors e colors s =
     (case connectedDevice s of
        None \<Rightarrow> s
      | Some dev \<Rightarrow>
          (let regions = regionsOf colors;
               changedIndexes = detectChanged regions (lastRegionsRef s) 0 [];
               s1 = s\<lparr>lastRegionsRef := regions\<rparr>
           in if platformOS e = Web then s1
              else (case udpSocket s1 of
                      None \<Rightarrow> s1
                    | Some sock \<Rightarrow>
                        (let isDelta = (length changedIndexes > 0
                                        \<and> length changedIndexes < length regions);
                             flags = (if isDelta then 1 else 0);
                             s2 = s1\<lparr>seqRef := (seqRef s1 + 1) AND 0xffff\<rparr>;
                             seq = seqRef s2;
                             ts = dateNow e AND 0xffff
                         in (case writeHeader (replicate 8 0) flags seq ts of
                               None \<Rightarrow> s2
                             | Some header \<Rightarrow>
                                 s2\<lparr>wire := wire s2 @
                                      [\<lparr>via = sock,
                                        packet = header @ buildPayload regions changedIndexes isDelta,
                                        toPort = port dev,
                                        toAddress = ipAddress dev,
                                        outcome = sendOutcome e\<rparr>]\<rparr>)))))"

text \<open>
  \<^verbatim>\<open>sendColor\<close>, the single-colour command: the four bytes \<^verbatim>\<open>[0, r, g, b]\<close> with no header.
\<close>

definition sendColor :: "env \<Rightarrow> string \<Rightarrow> provider \<Rightarrow> provider" where
  "sendColor e color s =
     (case connectedDevice s of
        None \<Rightarrow> s
      | Some dev \<Rightarrow>
          (let rgb = hexToRgbBytes color
           in if platformOS e = Web then s
              else (case udpSocket s of
                      None \<Rightarrow> s
                    | Some sock \<Rightarrow>
                        s\<lparr>wire := wire s @
                             [\<lparr>via = sock,
                               packet = Buffer_from [0, rgb ! 0, rgb ! 1, rgb ! 2],
                               toPort = port dev,
                               toAddress = ipAddress dev,
                               outcome = sendOutcome e\<rparr>]\<rparr>)))"

text \<open>Consecutive calls of \<^verbatim>\<open>sendRegionColors\<close>, each with its own clock and send outcome.\<close>

definition sendFrames :: "(env \<times> region_colors) list \<Rightarrow> provider \<Rightarrow> provider" where
  "sendFrames calls s = fold (\<lambda>(e, colors). sendRegionColors e colors) calls s"

text \<open>Reading a frame back: the fields of the header and the command byte of the payload.\<close>

definition frameSeq :: "datagram \<Rightarrow> nat" where
  "frameSeq d = 256 * (packet d ! 4) + packet d ! 5"

definition frameFlags :: "datagram \<Rightarrow> nat" where
  "frameFlags d = packet d ! 3"

definition frameCommand :: "datagram \<Rightarrow> nat" where
  "frameCommand d = packet d ! 8"

section \<open>Connecting and disconnecting\<close>

text \<open>
  The provider as \<^verbatim>\<open>WiFiProvider\<close> creates it, with nothing open and nothing pending.
  The regions last sent start as four empty strings (\<open>Nil\<close>), the counter as 0.
\<close>

definition initialProvider :: provider where
  "initialProvider =
     \<lparr>devices = [], connectedDevice = None, isScanning = False, udpSocket = None,
      seqRef = 0, lastRegionsRef = [Nil, Nil, Nil, Nil],
      openSockets = [], nextSocket = 0, connectBinds = [], scanBinds = [],
      scanIntervals = [], scanTimeouts = [], mockTimeouts = 0, wire = []\<rparr>"

text \<open>
  The update of the device list made by a connect: entries with the id of the device are
  replaced by the device marked connected, all others are marked not connected.
\<close>

definition markConnected :: "WiFiDevice \<Rightarrow> WiFiDevice list \<Rightarrow> WiFiDevice list" where
  "markConnected device prev =
     map (\<lambda>d. if dev_id d = dev_id device then device\<lparr>isConnected := True\<rparr>
               else d\<lparr>isConnected := False\<rparr>) prev"

text \<open>
  \<^verbatim>\<open>connectDevice\<close>. On the web the mock connection is made at once. Elsewhere a socket is
  created and its bind is requested; the state changes when the bind calls back
  (\<open>connectBound\<close>). When \<^verbatim>\<open>react-native-udp\<close> cannot be loaded the \<^verbatim>\<open>catch\<close> only logs.
\<close>

definition connectDevice :: "env \<Rightarrow> WiFiDevice \<Rightarrow> provider \<Rightarrow> provider" where
  "connectDevice e device s =
     (if platformOS e = Web then
        s\<lparr>connectedDevice := Some (device\<lparr>isConnected := True\<rparr>),
          devices := markConnected device (devices s)\<rparr>
      else if \<not> udpSupported e then s
      else s\<lparr>openSockets := openSockets s @ [nextSocket s],
             connectBinds := connectBinds s @ [(nextSocket s, device)],
             nextSocket := nextSocket s + 1\<rparr>)"

definition connectBound :: "socket \<Rightarrow> provider \<Rightarrow> provider" where
  "connectBound sock s =
     (case map_of (connectBinds s) sock of
        None \<Rightarrow> s
      | Some device \<Rightarrow>
          s\<lparr>udpSocket := Some sock,
            connectedDevice := Some (device\<lparr>isConnected := True\<rparr>),
            devices := markConnected device (devices s),
            connectBinds := filter (\<lambda>b. fst b \<noteq> sock) (connectBinds s)\<rparr>)"

text \<open>A connect whose bind succeeds: the request followed by its callback.\<close>

definition connectAndBind :: "env \<Rightarrow> WiFiDevice \<Rightarrow> provider \<Rightarrow> provider" where
  "connectAndBind e device s = connectBound (nextSocket s) (connectDevice e device s)"

definition disconnectDevice :: "env \<Rightarrow> provider \<Rightarrow> provider" where
  "disconnectDevice e s =
     (let s1 = (if platformOS e \<noteq> Web then
                  (case udpSocket s of
                     Some sock \<Rightarrow>
                       s\<lparr>openSockets := removeAll sock (openSockets s), udpSocket := None\<rparr>
                   | None \<Rightarrow> s)
                else s)
      in (case connectedDevice s1 of
            Some cd \<Rightarrow>
              s1\<lparr>devices := map (\<lambda>d. if dev_id d = dev_id cd then d\<lparr>isConnected := False\<rparr>
                                      else d) (devices s1),
                 connectedDevice := None\<rparr>
          | None \<Rightarrow> s1))"

section \<open>Discovery\<close>

text \<open>
  A discovery response after \<^verbatim>\<open>JSON.parse\<close>: every field may be absent. A datagram that
  does not parse is \<open>None\<close> where a response is expected.
\<close>

record discovery_response =
  rtype :: "string option"
  rid :: "string option"
  rname :: "string option"
  rport :: "nat option"
  rrssi :: "int option"

text \<open>The operator \<^verbatim>\<open>||\<close>: the default replaces an absent, empty or zero value.\<close>

definition orString :: "string option \<Rightarrow> string \<Rightarrow> string" where
  "orString v d = (case v of None \<Rightarrow> d | Some x \<Rightarrow> if x = [] then d else x)"

definition orNumber :: "nat option \<Rightarrow> nat \<Rightarrow> nat" where
  "orNumber v d = (case v of None \<Rightarrow> d | Some x \<Rightarrow> if x = 0 then d else x)"

definition newDeviceOf :: "discovery_response \<Rightarrow> string \<Rightarrow> WiFiDevice" where
  "newDeviceOf response address =
     \<lparr>dev_id = orString (rid response) address,
      name = orString (rname response) (''ESP LED ('' @ address @ '')''),
      ipAddress = address,
      port = orNumber (rport response) ESP_UDP_PORT,
      rssi = rrssi response,
      isConnected = False\<rparr>"

text \<open>\<^verbatim>\<open>Array.prototype.findIndex\<close>; the result \<^verbatim>\<open>-1\<close> is \<open>None\<close>.\<close>

fun findIndex :: "('a \<Rightarrow> bool) \<Rightarrow> 'a list \<Rightarrow> nat option" where
  "findIndex P [] = None"
| "findIndex P (x # xs) = (if P x then Some 0 else map_option Suc (findIndex P xs))"

text \<open>The update of the device list made by an accepted response.\<close>

definition registerDevice :: "WiFiDevice \<Rightarrow> WiFiDevice list \<Rightarrow> WiFiDevice list" where
  "registerDevice newDevice prev =
     (case findIndex (\<lambda>d. ipAddress d = ipAddress newDevice) prev of
        Some existingIndex \<Rightarrow>
          prev[existingIndex := (prev ! existingIndex)\<lparr>rssi := rssi newDevice\<rparr>]
      | None \<Rightarrow> prev @ [newDevice])"

definition onMessage :: "discovery_response option \<Rightarrow> string \<Rightarrow> provider \<Rightarrow> provider" where
  "onMessage msg address s =
     (case msg of
        None \<Rightarrow> s
      | Some response \<Rightarrow>
          if rtype response = Some ''ESP_LED_DEVICE''
          then s\<lparr>devices := registerDevice (newDeviceOf response address) (devices s)\<rparr>
          else s)"

definition MOCK_DEVICES :: "WiFiDevice list" where
  "MOCK_DEVICES =
     [\<lparr>dev_id = ''mock-1'', name = ''ESP LED Test (Mock)'', ipAddress = ''192.168.1.100'',
       port = ESP_UDP_PORT, rssi = Some (- 45), isConnected = False\<rparr>,
      \<lparr>dev_id = ''mock-2'', name = ''ESP LED Living Room (Mock)'',
       ipAddress = ''192.168.1.101'', port = ESP_UDP_PORT, rssi = Some (- 62),
       isConnected = False\<rparr>]"

text \<open>
  \<^verbatim>\<open>startScan\<close>. Without a usable UDP module the mock devices are scheduled; without the
  permissions nothing happens; otherwise a socket is created and its bind requested.
\<close>

definition startScan :: "env \<Rightarrow> provider \<Rightarrow> provider" where
  "startScan e s =
     (if platformOS e = Web \<or> \<not> udpSupported e then
        s\<lparr>isScanning := True, devices := [], mockTimeouts := mockTimeouts s + 1\<rparr>
      else if \<not> permissionsGranted e then s
      else s\<lparr>isScanning := True, devices := [],
             openSockets := openSockets s @ [nextSocket s],
             scanBinds := scanBinds s @ [nextSocket s],
             nextSocket := nextSocket s + 1\<rparr>)"

definition sendDiscovery :: "env \<Rightarrow> socket \<Rightarrow> provider \<Rightarrow> provider" where
  "sendDiscovery e sock s =
     s\<lparr>wire := wire s @
          [\<lparr>via = sock,
            packet = map of_char ''ESP_LED_DISCOVERY'',
            toPort = BROADCAST_PORT,
            toAddress = ''255.255.255.255'',
            outcome = sendOutcome e\<rparr>]\<rparr>"

text \<open>
  The bind callback of a scan: the first broadcast, then the repeating broadcast and the
  timeout of 30 seconds are scheduled. Both timers live in the closure of this callback.
\<close>

definition scanBound :: "env \<Rightarrow> socket \<Rightarrow> provider \<Rightarrow> provider" where
  "scanBound e sock s =
     (if sock \<in> set (scanBinds s) then
        (sendDiscovery e sock s)
          \<lparr>scanIntervals := scanIntervals s @ [sock],
           scanTimeouts := scanTimeouts s @ [sock],
           scanBinds := removeAll sock (scanBinds s)\<rparr>
      else s)"

text \<open>A tick of the repeating broadcast, every three seconds while it is scheduled.\<close>

definition intervalTick :: "env \<Rightarrow> socket \<Rightarrow> provider \<Rightarrow> provider" where
  "intervalTick e sock s = (if sock \<in> set (scanIntervals s) then sendDiscovery e sock s else s)"

text \<open>The timeout after 30 seconds: clears the interval, closes the socket, ends the scan.\<close>

definition scanTimeout :: "socket \<Rightarrow> provider \<Rightarrow> provider" where
  "scanTimeout sock s =
     (if sock \<in> set (scanTimeouts s) then
        s\<lparr>scanIntervals := removeAll sock (scanIntervals s),
          openSockets := removeAll sock (openSockets s),
          isScanning := False,
          scanTimeouts := removeAll sock (scanTimeouts s)\<rparr>
      else s)"

definition mockTimeout :: "provider \<Rightarrow> provider" where
  "mockTimeout s =
     (if mockTimeouts s > 0 then
        s\<lparr>devices := MOCK_DEVICES, isScanning := False, mockTimeouts := mockTimeouts s - 1\<rparr>
      else s)"

definition stopScan :: "provider \<Rightarrow> provider" where
  "stopScan s = s\<lparr>isScanning := False\<rparr>"

section \<open>The provider as an event system\<close>

datatype event =
    StartScan
  | ScanBound socket
  | IntervalTick socket
  | ScanTimeout socket
  | MockTimeout
  | StopScan
  | Message "discovery_response option" string
  | ConnectDevice WiFiDevice
  | ConnectBound socket
  | DisconnectDevice
  | SendColor string
  | SendRegionColors region_colors

fun step :: "env \<Rightarrow> event \<Rightarrow> provider \<Rightarrow> provider" where
  "step e StartScan s = startScan e s"
| "step e (ScanBound sock) s = scanBound e sock s"
| "step e (IntervalTick sock) s = intervalTick e sock s"
| "step e (ScanTimeout sock) s = scanTimeout sock s"
| "step e MockTimeout s = mockTimeout s"
| "step e StopScan s = stopScan s"
| "step e (Message msg address) s = onMessage msg address s"
| "step e (ConnectDevice device) s = connectDevice e device s"
| "step e (ConnectBound sock) s = connectBound sock s"
| "step e DisconnectDevice s = disconnectDevice e s"
| "step e (SendColor color) s = sendColor e color s"
| "step e (SendRegionColors colors) s = sendRegionColors e colors s"

text \<open>A run: events in order, each with the surroundings it happens in.\<close>

definition run :: "(env \<times> event) list \<Rightarrow> provider \<Rightarrow> provider" where
  "run evs s = fold (\<lambda>(e, ev). step e ev) evs s"

section \<open>Notions used in the statements\<close>

text \<open>
  A colour in the sense of the interface: an optional \<^verbatim>\<open>#\<close> followed by exactly six
  hexadecimal digits. This is written from the description, not from the regular expression.
\<close>

definition isHexDigit :: "char \<Rightarrow> bool" where
  "isHexDigit c =
     (let n = (of_char c :: nat)
      in (48 \<le> n \<and> n \<le> 57) \<or> (65 \<le> n \<and> n \<le> 70) \<or> (97 \<le> n \<and> n \<le> 102))"

definition matchesHexColor :: "string \<Rightarrow> bool" where
  "matchesHexColor hex =
     (let digits = (if take 1 hex = ''#'' then drop 1 hex else hex)
      in length digits = 6 \<and> list_all isHexDigit digits)"

text \<open>
  The red, green and blue value that a colour string denotes, written from the description
  of the format: after the optional \<^verbatim>\<open>#\<close>, each pair of hexadecimal digits is one value,
  sixteen times the first digit plus the second. The digits are read from a table. A
  string that is not a colour denotes black.
\<close>

definition hexDigitTable :: "(char \<times> nat) list" where
  "hexDigitTable =
     [(CHR ''0'', 0), (CHR ''1'', 1), (CHR ''2'', 2), (CHR ''3'', 3), (CHR ''4'', 4),
      (CHR ''5'', 5), (CHR ''6'', 6), (CHR ''7'', 7), (CHR ''8'', 8), (CHR ''9'', 9),
      (CHR ''a'', 10), (CHR ''b'', 11), (CHR ''c'', 12), (CHR ''d'', 13), (CHR ''e'', 14),
      (CHR ''f'', 15),
      (CHR ''A'', 10), (CHR ''B'', 11), (CHR ''C'', 12), (CHR ''D'', 13), (CHR ''E'', 14),
      (CHR ''F'', 15)]"

definition hexDigitOf :: "char \<Rightarrow> nat" where
  "hexDigitOf c = (case map_of hexDigitTable c of Some v \<Rightarrow> v | None \<Rightarrow> 0)"

definition hexPair :: "char \<Rightarrow> char \<Rightarrow> nat" where
  "hexPair hi lo = 16 * hexDigitOf hi + hexDigitOf lo"

definition rgbTriple :: "string \<Rightarrow> nat list" where
  "rgbTriple hex =
     (if matchesHexColor hex then
        (let digits = (if take 1 hex = ''#'' then drop 1 hex else hex)
         in [hexPair (digits ! 0) (digits ! 1), hexPair (digits ! 2) (digits ! 3),
             hexPair (digits ! 4) (digits ! 5)])
      else [0, 0, 0])"

text \<open>The number of regions whose new colour differs from the one last sent.\<close>

definition changedCount :: "region_colors \<Rightarrow> string list \<Rightarrow> nat" where
  "changedCount colors lastRegions =
     length (filter (\<lambda>i. regionsOf colors ! i \<noteq> lastRegions ! i) [0, 1, 2, 3])"

text \<open>What every reachable state satisfies about the two refs.\<close>

definition refs_ok :: "provider \<Rightarrow> bool" where
  "refs_ok s \<longleftrightarrow> seqRef s < 65536 \<and> length (lastRegionsRef s) = 4"

section \<open>Concrete scenarios\<close>

definition nativeEnv :: env where
  "nativeEnv = \<lparr>platformOS = Native, udpSupported = True, permissionsGranted = True,
                 dateNow = 1700000000000, sendOutcome = SendOk\<rparr>"

definition failingEnv :: env where
  "failingEnv = nativeEnv\<lparr>sendOutcome := SendThrows\<rparr>"

definition webEnv :: env where
  "webEnv = \<lparr>platformOS = Web, udpSupported = False, permissionsGranted = True,
              dateNow = 1700000000000, sendOutcome = SendOk\<rparr>"

definition deviceA :: WiFiDevice where
  "deviceA = \<lparr>dev_id = ''esp-a'', name = ''Desk'', ipAddress = ''192.168.1.20'',
               port = 7777, rssi = Some (- 50), isConnected = False\<rparr>"

definition deviceB :: WiFiDevice where
  "deviceB = \<lparr>dev_id = ''esp-b'', name = ''Shelf'', ipAddress = ''192.168.1.21'',
               port = 7777, rssi = Some (- 70), isConnected = False\<rparr>"

definition grey :: region_colors where
  "grey = \<lparr>top_region = ''#102030'', right_region = ''#102030'',
            bottom_region = ''#102030'', left_region = ''#102030''\<rparr>"

definition greyRightWhite :: region_colors where
  "greyRightWhite = grey\<lparr>right_region := ''#ffffff''\<rparr>"

text \<open>A provider with both devices discovered and device A connected over a socket.\<close>

definition discovered :: provider where
  "discovered = initialProvider\<lparr>devices := [deviceA, deviceB]\<rparr>"

definition connectedA :: provider where
  "connectedA = connectAndBind nativeEnv deviceA discovered"

text \<open>The same on the web, where the connection is a mock without a socket.\<close>

definition webConnectedA :: provider where
  "webConnectedA = connectDevice webEnv deviceA discovered"

definition webSentGrey :: provider where
  "webSentGrey = sendRegionColors webEnv grey webConnectedA"

text \<open>
  Three responses: two from one address with different ids and signal strengths, and one
  with the id of the first from another address.
\<close>

definition response1 :: discovery_response where
  "response1 = \<lparr>rtype = Some ''ESP_LED_DEVICE'', rid = Some ''esp-c'', rname = None,
                 rport = None, rrssi = Some (- 40)\<rparr>"

definition response2 :: discovery_response where
  "response2 = \<lparr>rtype = Some ''ESP_LED_DEVICE'', rid = Some ''esp-d'', rname = None,
                 rport = None, rrssi = Some (- 55)\<rparr>"

definition response3 :: discovery_response where
  "response3 = response1\<lparr>rrssi := Some (- 60)\<rparr>"

text \<open>A session that sent one frame, was disconnected, and is connected again.\<close>

definition reconnectedA :: provider where
  "reconnectedA =
     connectAndBind nativeEnv deviceA
       (disconnectDevice nativeEnv (sendRegionColors nativeEnv grey connectedA))"

text \<open>A scan that was started, whose socket is bound, and that was then stopped.\<close>

definition stoppedScan :: provider where
  "stoppedScan =
     run [(nativeEnv, StartScan), (nativeEnv, ScanBound 0), (nativeEnv, StopScan)]
       initialProvider"

section \<open>Bytes and masks\<close>

declare detectChanged.simps [simp del]

lemma and_ffff: "(n::nat) AND 0xffff = n mod 65536"
proof -
  have "n AND mask 16 = n mod 2 ^ 16"
    by (simp only: take_bit_eq_mod flip: take_bit_eq_mask)
  then show ?thesis by (simp add: mask_eq_exp_minus_1)
qed

lemma and_255: "(n::nat) AND 255 = n mod 256"
proof -
  have "n AND mask 8 = n mod 2 ^ 8"
    by (simp only: take_bit_eq_mod flip: take_bit_eq_mask)
  then show ?thesis by (simp add: mask_eq_exp_minus_1)
qed

lemma drop_bit_8: "drop_bit 8 (v::nat) = v div 256"
  by (simp add: drop_bit_eq_div)

lemma Buffer_from_bytes: "\<forall>b \<in> set xs. b \<le> 255 \<Longrightarrow> Buffer_from xs = xs"
  by (induction xs) (simp_all add: Buffer_from_def and_255)

lemma writeHeader_bytes:
  assumes "length buf = 8" "flags \<le> 255" "seq \<le> 65535" "ts \<le> 65535"
  shows "writeHeader buf flags seq ts =
     Some [171, 205, 1, flags, seq div 256, seq mod 256, ts div 256, ts mod 256]"
proof -
  obtain b0 b1 b2 b3 b4 b5 b6 b7 where buf: "buf = [b0, b1, b2, b3, b4, b5, b6, b7]"
    using assms(1) by (auto simp: length_Suc_conv eval_nat_numeral)
  show ?thesis using assms(2-4)
    by (simp add: buf writeHeader_def writeUInt16BE_def writeUInt8_def MAGIC_def version_def
        and_255 drop_bit_8)
qed

section \<open>Colour strings\<close>

lemma hexClass_isHexDigit: "hexClass c \<Longrightarrow> isHexDigit c"
  by (auto simp: hexClass_def isHexDigit_def)

lemma hash_not_hexClass: "\<not> hexClass CHR ''#''"
  by (simp add: hexClass_def)

lemma hexGroups_Some:
  "hexGroups s = Some r \<Longrightarrow> length s = 6 \<and> list_all hexClass s \<and>
     r = (take 2 s, take 2 (drop 2 s), drop 4 s)"
  by (induction s rule: hexGroups.induct) (auto split: if_splits)

lemma hexGroups_hash: "hexGroups (CHR ''#'' # rest) = None"
proof (cases "hexGroups (CHR ''#'' # rest)")
  case (Some r)
  then have "list_all hexClass (CHR ''#'' # rest)" by (blast dest: hexGroups_Some)
  then show ?thesis by (simp add: hash_not_hexClass)
qed simp

lemma hexRegexExec_Some:
  assumes "hexRegexExec s = Some r"
  shows "matchesHexColor s"
proof (cases s)
  case Nil
  with assms show ?thesis by (simp add: hexRegexExec_def)
next
  case (Cons ch rest)
  show ?thesis
  proof (cases "ch = CHR ''#''")
    case True
    with assms Cons have "hexGroups rest = Some r"
      by (simp add: hexRegexExec_def hexGroups_hash split: option.splits)
    then have "length rest = 6 \<and> list_all hexClass rest" by (blast dest: hexGroups_Some)
    then show ?thesis using Cons True
      by (auto simp: matchesHexColor_def list_all_iff intro: hexClass_isHexDigit)
  next
    case False
    with assms Cons have "hexGroups s = Some r" by (simp add: hexRegexExec_def)
    then have "length s = 6 \<and> list_all hexClass s" by (blast dest: hexGroups_Some)
    then show ?thesis using Cons False
      by (auto simp: matchesHexColor_def list_all_iff intro: hexClass_isHexDigit)
  qed
qed

lemma isHexDigit_hexClass: "isHexDigit c \<Longrightarrow> hexClass c"
proof -
  assume h: "isHexDigit c"
  define n where "n = (of_char c :: nat)"
  have mem: "c \<in> set xs \<longleftrightarrow> n \<in> set (map of_char xs)" for xs
    by (auto simp: n_def)
  from h have r: "(48 \<le> n \<and> n \<le> 57) \<or> (65 \<le> n \<and> n \<le> 70) \<or> (97 \<le> n \<and> n \<le> 102)"
    unfolding isHexDigit_def Let_def n_def [symmetric] .
  have "n \<in> {48, 49, 50, 51, 52, 53, 54, 55, 56, 57, 65, 66, 67, 68, 69, 70,
                   97, 98, 99, 100, 101, 102}"
    using r by (simp only: insert_iff empty_iff) arith
  then show ?thesis unfolding hexClass_def mem by auto
qed

lemma matchesHexColor_exec:
  assumes "matchesHexColor s"
  shows "hexRegexExec s \<noteq> None"
proof -
  define digits where "digits = (if take 1 s = ''#'' then drop 1 s else s)"
  from assms have len: "length digits = 6" and cls: "list_all hexClass digits"
    by (auto simp: matchesHexColor_def digits_def Let_def list_all_iff
        intro: isHexDigit_hexClass split: if_splits)
  from len obtain a b c d e f where d: "digits = [a, b, c, d, e, f]"
    by (auto simp: length_Suc_conv eval_nat_numeral)
  with cls have g: "hexGroups digits \<noteq> None" by simp
  show ?thesis
  proof (cases s)
    case Nil
    with len show ?thesis by (simp add: digits_def)
  next
    case (Cons ch rest)
    with g show ?thesis
      by (auto simp: hexRegexExec_def digits_def split: if_splits option.splits)
  qed
qed

section \<open>Changed regions and payloads\<close>

lemma hexDigitValue_le: "hexDigitValue c \<le> 15"
  by (auto simp: hexDigitValue_def Let_def)

lemma parseInt16_two: "parseInt16 [a, b] = 16 * hexDigitValue a + hexDigitValue b"
  by (simp add: parseInt16_def)

lemma parseInt16_two_le: "parseInt16 [a, b] \<le> 255"
  using hexDigitValue_le [of a] hexDigitValue_le [of b] by (simp add: parseInt16_two)

lemma hexToRgbBytes_shape:
  "\<exists>r g b. hexToRgbBytes hex = [r, g, b] \<and> r \<le> 255 \<and> g \<le> 255 \<and> b \<le> 255"
proof (cases "hexRegexExec hex")
  case None
  then show ?thesis by (simp add: hexToRgbBytes_def)
next
  case (Some r)
  then obtain s where "hexGroups s = Some r"
    by (auto simp: hexRegexExec_def split: list.splits if_splits option.splits)
  then have len: "length s = 6" and r: "r = (take 2 s, take 2 (drop 2 s), drop 4 s)"
    by (auto dest: hexGroups_Some)
  from len obtain a b c d e f where "s = [a, b, c, d, e, f]"
    by (auto simp: length_Suc_conv eval_nat_numeral)
  with r Some show ?thesis
    by (simp add: hexToRgbBytes_def parseInt16_two_le)
qed

lemma length_hexToRgbBytes: "length (hexToRgbBytes hex) = 3"
  using hexToRgbBytes_shape [of hex] by auto

lemma hexToRgbBytes_le: "b \<in> set (hexToRgbBytes hex) \<Longrightarrow> b \<le> 255"
  using hexToRgbBytes_shape [of hex] by auto

lemma hexDigitValue_table: "hexClass c \<Longrightarrow> hexDigitValue c = hexDigitOf c"
  by (auto simp: hexClass_def hexDigitValue_def hexDigitOf_def hexDigitTable_def)

lemma matchesHexColor_cases:
  assumes "matchesHexColor hex"
  obtains a b c d e f where "hex = [a, b, c, d, e, f] \<or> hex = CHR ''#'' # [a, b, c, d, e, f]"
    and "take 1 hex = ''#'' \<longleftrightarrow> hex = CHR ''#'' # [a, b, c, d, e, f]"
    and "hexClass a" "hexClass b" "hexClass c" "hexClass d" "hexClass e" "hexClass f"
proof -
  define digits where "digits = (if take 1 hex = ''#'' then drop 1 hex else hex)"
  from assms have len: "length digits = 6" and cls: "list_all hexClass digits"
    by (auto simp: matchesHexColor_def digits_def Let_def list_all_iff
        intro: isHexDigit_hexClass split: if_splits)
  from len obtain a b c d e f where d: "digits = [a, b, c, d, e, f]"
    by (auto simp: length_Suc_conv eval_nat_numeral)
  from cls d have h: "hexClass a" "hexClass b" "hexClass c" "hexClass d" "hexClass e" "hexClass f"
    by simp_all
  show thesis
  proof (cases "take 1 hex = ''#''")
    case True
    then have "hex = CHR ''#'' # drop 1 hex" by (cases hex) simp_all
    with True d have "hex = CHR ''#'' # [a, b, c, d, e, f]" by (simp add: digits_def)
    with True h that show thesis by blast
  next
    case False
    with d have hex: "hex = [a, b, c, d, e, f]" by (simp add: digits_def)
    with False h that show thesis by blast
  qed
qed

lemma hexToRgbBytes_rgbTriple: "hexToRgbBytes hex = rgbTriple hex"
proof (cases "matchesHexColor hex")
  case False
  then have "hexRegexExec hex = None"
    by (cases "hexRegexExec hex") (auto dest: hexRegexExec_Some)
  with False show ?thesis by (simp add: hexToRgbBytes_def rgbTriple_def)
next
  case True
  from True obtain a b c d e f where
    shape: "hex = [a, b, c, d, e, f] \<or> hex = CHR ''#'' # [a, b, c, d, e, f]"
    and hash: "take 1 hex = ''#'' \<longleftrightarrow> hex = CHR ''#'' # [a, b, c, d, e, f]"
    and h: "hexClass a" "hexClass b" "hexClass c" "hexClass d" "hexClass e" "hexClass f"
    by (rule matchesHexColor_cases)
  have exec: "hexRegexExec hex = Some ([a, b], [c, d], [e, f])"
  proof (cases "hex = CHR ''#'' # [a, b, c, d, e, f]")
    case True
    with h show ?thesis by (simp add: hexRegexExec_def)
  next
    case False
    with shape have hex: "hex = [a, b, c, d, e, f]" by simp
    from h(1) have "a \<noteq> CHR ''#''" using hash_not_hexClass by auto
    with h show ?thesis by (simp add: hex hexRegexExec_def)
  qed
  have code: "hexToRgbBytes hex = [hexPair a b, hexPair c d, hexPair e f]"
    using h by (simp add: hexToRgbBytes_def exec parseInt16_two hexPair_def hexDigitValue_table)
  have spec: "rgbTriple hex = [hexPair a b, hexPair c d, hexPair e f]"
  proof (cases "hex = CHR ''#'' # [a, b, c, d, e, f]")
    case t: True
    then show ?thesis using True by (simp add: rgbTriple_def)
  next
    case False
    with shape have hex: "hex = [a, b, c, d, e, f]" by simp
    from hash False have "take 1 hex \<noteq> ''#''" by simp
    then show ?thesis using True by (simp add: rgbTriple_def Let_def) (simp add: hex)
  qed
  from code spec show ?thesis by simp
qed

lemma rgbTriple_grey: "rgbTriple ''#102030'' = [16, 32, 48]"
  by (simp add: rgbTriple_def matchesHexColor_def isHexDigit_def hexPair_def hexDigitOf_def
      hexDigitTable_def)

lemma rgbTriple_white: "rgbTriple ''#ffffff'' = [255, 255, 255]"
  by (simp add: rgbTriple_def matchesHexColor_def isHexDigit_def hexPair_def hexDigitOf_def
      hexDigitTable_def)

lemma detectChanged_filter:
  "detectChanged regions lastRegions i acc =
     acc @ filter (\<lambda>j. js_index regions j \<noteq> js_index lastRegions j) [i..<length regions]"
proof (induction regions lastRegions i acc rule: detectChanged.induct)
  case (1 regions lastRegions i acc)
  show ?case
  proof (cases "i < length regions")
    case True
    then show ?thesis
      using "1.IH" [OF True] by (subst detectChanged.simps) (simp add: upt_conv_Cons)
  next
    case False
    then show ?thesis by (subst detectChanged.simps) simp
  qed
qed

lemma upt_0_4: "[0..<4] = [0, 1, 2, 3]"
  by (simp add: upt_conv_Cons)

lemma length_regionsOf: "length (regionsOf colors) = 4"
  by (simp add: regionsOf_def)

lemma detectChanged_regions:
  "detectChanged (regionsOf colors) lastRegions 0 [] =
     filter (\<lambda>j. Some (regionsOf colors ! j) \<noteq> js_index lastRegions j) [0, 1, 2, 3]"
proof -
  have "filter (\<lambda>j. js_index (regionsOf colors) j \<noteq> js_index lastRegions j) [0..<4] =
        filter (\<lambda>j. Some (regionsOf colors ! j) \<noteq> js_index lastRegions j) [0..<4]"
    by (rule filter_cong) (simp_all add: js_index_def length_regionsOf)
  then show ?thesis by (simp add: detectChanged_filter length_regionsOf upt_0_4)
qed

lemma detectChanged_subset: "set (detectChanged (regionsOf colors) lastRegions 0 []) \<subseteq> {0, 1, 2, 3}"
  by (auto simp: detectChanged_regions)

lemma detectChanged_length_le: "length (detectChanged (regionsOf colors) lastRegions 0 []) \<le> 4"
proof -
  have "length (filter P [0, 1, 2, 3 :: nat]) \<le> length [0, 1, 2, 3 :: nat]" for P
    by (rule length_filter_le)
  then show ?thesis by (simp add: detectChanged_regions)
qed

lemma detectChanged_count:
  "length lastRegions = 4 \<Longrightarrow>
   length (detectChanged (regionsOf colors) lastRegions 0 []) = changedCount colors lastRegions"
proof -
  assume len: "length lastRegions = 4"
  have "filter (\<lambda>j. Some (regionsOf colors ! j) \<noteq> js_index lastRegions j) [0, 1, 2, 3] =
        filter (\<lambda>i. regionsOf colors ! i \<noteq> lastRegions ! i) [0, 1, 2, 3]"
    by (rule filter_cong) (auto simp: js_index_def len)
  then show ?thesis by (simp add: detectChanged_regions changedCount_def)
qed

lemma fullValues_concat: "fullValues regions = concat (map hexToRgbBytes regions)"
proof -
  have "foldl (\<lambda>rgbValues color. rgbValues @ hexToRgbBytes color) acc regions =
          acc @ concat (map hexToRgbBytes regions)" for acc
    by (induction regions arbitrary: acc) simp_all
  then show ?thesis by (simp add: fullValues_def)
qed

lemma deltaEntries_concat:
  "deltaEntries regions ch = concat (map (\<lambda>idx. idx # hexToRgbBytes (regions ! idx)) ch)"
proof -
  have step: "[hexToRgbBytes c ! 0, hexToRgbBytes c ! Suc 0, hexToRgbBytes c ! 2] =
                hexToRgbBytes c" for c
    using hexToRgbBytes_shape [of c] by auto
  have "foldl (\<lambda>entries idx.
              (let rgb = hexToRgbBytes (regions ! idx)
               in entries @ [idx, rgb ! 0, rgb ! 1, rgb ! 2])) acc ch =
          acc @ concat (map (\<lambda>idx. idx # hexToRgbBytes (regions ! idx)) ch)" for acc
    by (induction ch arbitrary: acc) (simp_all add: Let_def step)
  then show ?thesis by (simp add: deltaEntries_def)
qed

lemma buildPayload_full:
  "buildPayload regions ch False = 1 # concat (map hexToRgbBytes regions)"
proof -
  have "\<forall>b \<in> set (1 # concat (map hexToRgbBytes regions)). b \<le> 255"
    by (auto dest: hexToRgbBytes_le)
  then show ?thesis
    by (simp only: buildPayload_def if_False fullValues_concat Buffer_from_bytes)
qed

lemma buildPayload_delta:
  assumes "\<forall>i \<in> set ch. i \<le> 255" "length ch \<le> 255"
  shows "buildPayload regions ch True =
           2 # length ch # concat (map (\<lambda>idx. idx # hexToRgbBytes (regions ! idx)) ch)"
proof -
  have "\<forall>b \<in> set ([2, length ch] @ concat (map (\<lambda>idx. idx # hexToRgbBytes (regions ! idx)) ch)).
          b \<le> 255"
    using assms by (auto dest: hexToRgbBytes_le)
  then show ?thesis
    by (simp only: buildPayload_def if_True deltaEntries_concat Buffer_from_bytes) simp
qed

lemma length_concat_entries:
  "length (concat (map (\<lambda>idx. idx # hexToRgbBytes (regions ! idx)) ch)) = 4 * length ch"
  by (induction ch) (simp_all add: length_hexToRgbBytes)

section \<open>What one call of sendRegionColors does\<close>

lemma mod_65536_le: "(n::nat) mod 65536 \<le> 65535"
  using mod_less_divisor [of 65536 n] by linarith

lemma sendRegionColors_not_connected:
  "connectedDevice s = None \<Longrightarrow> sendRegionColors e colors s = s"
  by (simp add: sendRegionColors_def)

lemma sendRegionColors_web:
  "connectedDevice s = Some dev \<Longrightarrow> platformOS e = Web \<Longrightarrow>
   sendRegionColors e colors s = s\<lparr>lastRegionsRef := regionsOf colors\<rparr>"
  by (simp add: sendRegionColors_def Let_def)

lemma sendRegionColors_no_socket:
  "connectedDevice s = Some dev \<Longrightarrow> udpSocket s = None \<Longrightarrow>
   sendRegionColors e colors s = s\<lparr>lastRegionsRef := regionsOf colors\<rparr>"
  by (simp add: sendRegionColors_def Let_def)

lemma sendRegionColors_transmits:
  assumes "connectedDevice s = Some dev" "platformOS e = Native" "udpSocket s = Some sock"
  shows "sendRegionColors e colors s =
     s\<lparr>lastRegionsRef := regionsOf colors,
       seqRef := (seqRef s + 1) mod 65536,
       wire := wire s @
         [\<lparr>via = sock,
           packet =
             [171, 205, 1,
              (if 0 < length (detectChanged (regionsOf colors) (lastRegionsRef s) 0 [])
                  \<and> length (detectChanged (regionsOf colors) (lastRegionsRef s) 0 []) < 4
               then 1 else 0),
              (seqRef s + 1) mod 65536 div 256, (seqRef s + 1) mod 65536 mod 256,
              dateNow e mod 65536 div 256, dateNow e mod 65536 mod 256]
             @ buildPayload (regionsOf colors)
                 (detectChanged (regionsOf colors) (lastRegionsRef s) 0 [])
                 (0 < length (detectChanged (regionsOf colors) (lastRegionsRef s) 0 [])
                  \<and> length (detectChanged (regionsOf colors) (lastRegionsRef s) 0 []) < 4),
           toPort = port dev, toAddress = ipAddress dev, outcome = sendOutcome e\<rparr>]\<rparr>"
proof -
  have hdr: "writeHeader (replicate 8 0) flags sq t =
      Some [171, 205, 1, flags, sq div 256, sq mod 256, t div 256, t mod 256]"
    if "flags \<le> 255" "sq \<le> 65535" "t \<le> 65535" for flags sq t
    using that by (intro writeHeader_bytes) simp_all
  show ?thesis
    using assms
    by (simp add: sendRegionColors_def Let_def and_ffff length_regionsOf hdr mod_65536_le)
qed

section \<open>The concrete scenarios, evaluated\<close>

lemma nativeEnv_simps:
  "platformOS nativeEnv = Native" "udpSupported nativeEnv" "permissionsGranted nativeEnv"
  "dateNow nativeEnv = 1700000000000" "sendOutcome nativeEnv = SendOk"
  by (simp_all add: nativeEnv_def)

lemma failingEnv_simps:
  "platformOS failingEnv = Native" "sendOutcome failingEnv = SendThrows"
  by (simp_all add: failingEnv_def nativeEnv_def)

lemma webEnv_simps: "platformOS webEnv = Web"
  by (simp add: webEnv_def)

lemma connectedA_eq:
  "connectedA =
     \<lparr>devices = [deviceA\<lparr>isConnected := True\<rparr>, deviceB],
      connectedDevice = Some (deviceA\<lparr>isConnected := True\<rparr>), isScanning = False,
      udpSocket = Some 0, seqRef = 0, lastRegionsRef = [Nil, Nil, Nil, Nil],
      openSockets = [0], nextSocket = 1, connectBinds = [], scanBinds = [],
      scanIntervals = [], scanTimeouts = [], mockTimeouts = 0, wire = []\<rparr>"
  by (simp add: connectedA_def connectAndBind_def connectDevice_def connectBound_def
      nativeEnv_simps discovered_def initialProvider_def markConnected_def deviceA_def
      deviceB_def)

lemma webConnectedA_eq:
  "webConnectedA =
     \<lparr>devices = [deviceA\<lparr>isConnected := True\<rparr>, deviceB],
      connectedDevice = Some (deviceA\<lparr>isConnected := True\<rparr>), isScanning = False,
      udpSocket = None, seqRef = 0, lastRegionsRef = [Nil, Nil, Nil, Nil],
      openSockets = [], nextSocket = 0, connectBinds = [], scanBinds = [],
      scanIntervals = [], scanTimeouts = [], mockTimeouts = 0, wire = []\<rparr>"
  by (simp add: webConnectedA_def connectDevice_def webEnv_simps discovered_def
      initialProvider_def markConnected_def deviceA_def deviceB_def)

lemma regionsOf_grey: "regionsOf grey = [''#102030'', ''#102030'', ''#102030'', ''#102030'']"
  by (simp add: regionsOf_def grey_def)

lemma regionsOf_greyRightWhite:
  "regionsOf greyRightWhite = [''#102030'', ''#ffffff'', ''#102030'', ''#102030'']"
  by (simp add: regionsOf_def greyRightWhite_def grey_def)

lemma hexToRgbBytes_grey: "hexToRgbBytes ''#102030'' = [16, 32, 48]"
  by (simp add: hexToRgbBytes_def hexRegexExec_def hexClass_def parseInt16_def
      hexDigitValue_def)

lemma hexToRgbBytes_white: "hexToRgbBytes ''#ffffff'' = [255, 255, 255]"
  by (simp add: hexToRgbBytes_def hexRegexExec_def hexClass_def parseInt16_def
      hexDigitValue_def)

lemma detect_first_grey:
  "detectChanged [''#102030'', ''#102030'', ''#102030'', ''#102030''] [Nil, Nil, Nil, Nil] 0 [] =
     [0, 1, 2, 3]"
  by (simp add: detectChanged_filter js_index_def upt_0_4)

lemma detect_grey_grey:
  "detectChanged [''#102030'', ''#102030'', ''#102030'', ''#102030'']
     [''#102030'', ''#102030'', ''#102030'', ''#102030''] 0 [] = []"
  by (simp add: detectChanged_filter js_index_def upt_0_4)

lemma detect_white_grey:
  "detectChanged [''#102030'', ''#ffffff'', ''#102030'', ''#102030'']
     [''#102030'', ''#102030'', ''#102030'', ''#102030''] 0 [] = [1]"
  by (simp add: detectChanged_filter js_index_def upt_0_4)

lemma first_frame:
  "sendRegionColors nativeEnv grey connectedA =
     connectedA\<lparr>lastRegionsRef := regionsOf grey, seqRef := 1,
       wire := [\<lparr>via = 0,
                 packet = [171, 205, 1, 0, 0, 1, 104, 0,
                           1, 16, 32, 48, 16, 32, 48, 16, 32, 48, 16, 32, 48],
                 toPort = 7777, toAddress = ''192.168.1.20'', outcome = SendOk\<rparr>]\<rparr>"
proof -
  have c: "connectedDevice connectedA = Some (deviceA\<lparr>isConnected := True\<rparr>)"
    and u: "udpSocket connectedA = Some 0"
    by (simp_all add: connectedA_eq)
  show ?thesis
    by (simp add: sendRegionColors_transmits [OF c nativeEnv_simps(1) u])
       (simp add: connectedA_eq detect_first_grey buildPayload_full regionsOf_grey
          hexToRgbBytes_grey nativeEnv_simps deviceA_def)
qed

lemma second_frame:
  "wire (sendRegionColors nativeEnv greyRightWhite (sendRegionColors nativeEnv grey connectedA)) =
     wire (sendRegionColors nativeEnv grey connectedA) @
       [\<lparr>via = 0, packet = [171, 205, 1, 1, 0, 2, 104, 0, 2, 1, 1, 255, 255, 255],
         toPort = 7777, toAddress = ''192.168.1.20'', outcome = SendOk\<rparr>]"
proof -
  let ?s = "sendRegionColors nativeEnv grey connectedA"
  have c: "connectedDevice ?s = Some (deviceA\<lparr>isConnected := True\<rparr>)"
    and u: "udpSocket ?s = Some 0"
    by (simp_all add: first_frame) (simp_all add: connectedA_eq)
  have l: "lastRegionsRef ?s = regionsOf grey" and q: "seqRef ?s = 1"
    by (simp_all add: first_frame)
  show ?thesis
    by (simp add: sendRegionColors_transmits [OF c nativeEnv_simps(1) u] l q detect_white_grey
        regionsOf_grey
        buildPayload_delta regionsOf_greyRightWhite hexToRgbBytes_white nativeEnv_simps
        deviceA_def)
qed

section \<open>Claims about the frame\<close>

lemma frame_layout_bytes:
  "wire (sendRegionColors e colors s) = wire s \<or>
   (\<exists>d flags payload changed.
      wire (sendRegionColors e colors s) = wire s @ [d] \<and>
      packet d =
        [0xAB, 0xCD, 1, flags,
         seqRef (sendRegionColors e colors s) div 256,
         seqRef (sendRegionColors e colors s) mod 256,
         dateNow e mod 65536 div 256, dateNow e mod 65536 mod 256] @ payload \<and>
      seqRef (sendRegionColors e colors s) < 65536 \<and>
      (\<forall>b \<in> set (packet d). b < 256) \<and>
      changed = filter (\<lambda>i. length (lastRegionsRef s) \<le> i
                              \<or> regionsOf colors ! i \<noteq> lastRegionsRef s ! i) [0, 1, 2, 3] \<and>
      set changed \<subseteq> {0, 1, 2, 3} \<and> length changed < 256 \<and>
      ((flags = 0 \<and> (changed = [] \<or> length changed = 4) \<and>
        payload = 1 # hexToRgbBytes (top_region colors) @ hexToRgbBytes (right_region colors)
                    @ hexToRgbBytes (bottom_region colors) @ hexToRgbBytes (left_region colors) \<and>
        length payload = 13)
       \<or>
       (flags = 1 \<and> changed \<noteq> [] \<and> length changed < 4 \<and>
        payload = 2 # length changed #
          concat (map (\<lambda>i. i # hexToRgbBytes (regionsOf colors ! i)) changed) \<and>
        length payload = 2 + 4 * length changed)))"
proof (cases "connectedDevice s")
  case None
  then show ?thesis by (simp add: sendRegionColors_not_connected)
next
  case (Some dev)
  show ?thesis
  proof (cases "platformOS e")
    case Web
    with Some show ?thesis by (simp add: sendRegionColors_web)
  next
    case Native
    show ?thesis
    proof (cases "udpSocket s")
      case None
      with Some show ?thesis by (simp add: sendRegionColors_no_socket)
    next
      case (Some sock)
      define ch where "ch = detectChanged (regionsOf colors) (lastRegionsRef s) 0 []"
      define isDelta where "isDelta \<longleftrightarrow> 0 < length ch \<and> length ch < 4"
      define flags :: nat where "flags = (if isDelta then 1 else 0)"
      define payload where "payload = buildPayload (regionsOf colors) ch isDelta"
      define sq where "sq = (seqRef s + 1) mod 65536"
      define ts where "ts = dateNow e mod 65536"
      define d where
        "d = \<lparr>via = sock,
              packet = [171, 205, 1, flags, sq div 256, sq mod 256, ts div 256, ts mod 256]
                       @ payload,
              toPort = port dev, toAddress = ipAddress dev, outcome = sendOutcome e\<rparr>"
      have tx: "sendRegionColors e colors s =
                  s\<lparr>lastRegionsRef := regionsOf colors, seqRef := sq, wire := wire s @ [d]\<rparr>"
        unfolding d_def payload_def flags_def isDelta_def ch_def sq_def ts_def
        by (rule sendRegionColors_transmits [OF \<open>connectedDevice s = Some dev\<close> Native Some])
      have chf: "ch = filter (\<lambda>i. length (lastRegionsRef s) \<le> i
                                \<or> regionsOf colors ! i \<noteq> lastRegionsRef s ! i) [0, 1, 2, 3]"
      proof -
        have "filter (\<lambda>j. Some (regionsOf colors ! j) \<noteq> js_index (lastRegionsRef s) j)
                [0, 1, 2, 3] =
              filter (\<lambda>i. length (lastRegionsRef s) \<le> i
                           \<or> regionsOf colors ! i \<noteq> lastRegionsRef s ! i) [0, 1, 2, 3]"
          by (rule filter_cong) (auto simp: js_index_def)
        then show ?thesis by (simp only: ch_def detectChanged_regions)
      qed
      have sub: "set ch \<subseteq> {0, 1, 2, 3}" and len: "length ch \<le> 4"
        unfolding ch_def by (rule detectChanged_subset, rule detectChanged_length_le)
      have small: "\<forall>i \<in> set ch. i \<le> 255" using sub by auto
      have sq: "sq < 65536" and ts: "ts < 65536" by (simp_all add: sq_def ts_def)
      have full: "payload = 1 # hexToRgbBytes (top_region colors)
                    @ hexToRgbBytes (right_region colors)
                    @ hexToRgbBytes (bottom_region colors) @ hexToRgbBytes (left_region colors)"
        if "\<not> isDelta"
        using that by (simp add: payload_def buildPayload_full regionsOf_def)
      have delta: "payload = 2 # length ch #
                     concat (map (\<lambda>i. i # hexToRgbBytes (regionsOf colors ! i)) ch)"
        if "isDelta"
        using that small len by (simp add: payload_def buildPayload_delta)
      have pbytes: "\<forall>b \<in> set payload. b < 256"
      proof (cases isDelta)
        case True
        show ?thesis unfolding delta [OF True]
          using small len by (auto dest: hexToRgbBytes_le)
      next
        case False
        show ?thesis unfolding full [OF False] by (auto dest: hexToRgbBytes_le)
      qed
      have hbytes: "\<forall>b \<in> set [171, 205, 1, flags, sq div 256, sq mod 256, ts div 256, ts mod 256].
                      b < 256"
        using sq ts by (simp add: flags_def div_less_iff_less_mult)
      have bytes: "\<forall>b \<in> set (packet d). b < 256"
        using hbytes pbytes by (auto simp: d_def)
      have shape:
        "(flags = 0 \<and> (ch = [] \<or> length ch = 4) \<and>
          payload = 1 # hexToRgbBytes (top_region colors) @ hexToRgbBytes (right_region colors)
                      @ hexToRgbBytes (bottom_region colors) @ hexToRgbBytes (left_region colors) \<and>
          length payload = 13)
         \<or>
         (flags = 1 \<and> ch \<noteq> [] \<and> length ch < 4 \<and>
          payload = 2 # length ch #
            concat (map (\<lambda>i. i # hexToRgbBytes (regionsOf colors ! i)) ch) \<and>
          length payload = 2 + 4 * length ch)"
      proof (cases isDelta)
        case True
        have "length payload = 2 + 4 * length ch"
          by (simp add: delta [OF True] length_concat_entries)
        moreover from True have "ch \<noteq> []" "length ch < 4" by (auto simp: isDelta_def)
        ultimately show ?thesis
          using True delta [OF True] by (intro disjI2) (simp add: flags_def)
      next
        case False
        have "length payload = 13"
          by (simp add: full [OF False] length_hexToRgbBytes)
        moreover from False len have "ch = [] \<or> length ch = 4" by (auto simp: isDelta_def)
        ultimately show ?thesis
          using False full [OF False] by (intro disjI1) (simp add: flags_def)
      qed
      have l256: "length ch < 256" using len by simp
      have p: "packet d = [0xAB, 0xCD, 1, flags, sq div 256, sq mod 256,
                           dateNow e mod 65536 div 256, dateNow e mod 65536 mod 256] @ payload"
        by (simp add: d_def ts_def)
      have w: "wire (sendRegionColors e colors s) = wire s @ [d]"
        and q: "seqRef (sendRegionColors e colors s) = sq"
        by (simp_all add: tx)
      have "\<exists>d flags payload changed.
              wire (sendRegionColors e colors s) = wire s @ [d] \<and>
              packet d = [0xAB, 0xCD, 1, flags, sq div 256, sq mod 256,
                          dateNow e mod 65536 div 256, dateNow e mod 65536 mod 256] @ payload \<and>
              sq < 65536 \<and>
              (\<forall>b \<in> set (packet d). b < 256) \<and>
              changed = filter (\<lambda>i. length (lastRegionsRef s) \<le> i
                                      \<or> regionsOf colors ! i \<noteq> lastRegionsRef s ! i)
                          [0, 1, 2, 3] \<and>
              set changed \<subseteq> {0, 1, 2, 3} \<and> length changed < 256 \<and>
              ((flags = 0 \<and> (changed = [] \<or> length changed = 4) \<and>
                payload = 1 # hexToRgbBytes (top_region colors)
                            @ hexToRgbBytes (right_region colors)
                            @ hexToRgbBytes (bottom_region colors)
                            @ hexToRgbBytes (left_region colors) \<and>
                length payload = 13)
               \<or>
               (flags = 1 \<and> changed \<noteq> [] \<and> length changed < 4 \<and>
                payload = 2 # length changed #
                  concat (map (\<lambda>i. i # hexToRgbBytes (regionsOf colors ! i)) changed) \<and>
                length payload = 2 + 4 * length changed))"
        apply (rule exI [of _ d], rule exI [of _ flags], rule exI [of _ payload],
            rule exI [of _ ch])
        using w p sq bytes chf sub l256 shape
        apply (intro conjI)
        apply assumption+
        done
      then show ?thesis
        unfolding q by (rule disjI2)
    qed
  qed
qed

text \<open>
  Claim C1. Every colour frame that \<^verbatim>\<open>sendRegionColors\<close> hands to the socket is an
  eight-byte big-endian header followed by the payload. The header holds the magic number
  \<open>0xABCD\<close> at offset 0, the version 1 at offset 2, the flags at offset 3 (1 for a delta
  payload, 0 for a full one), the sequence number at offset 4 and the low 16 bits of the
  millisecond clock at offset 6. A full payload is the command byte 1 and the twelve bytes
  of the four regions in the order top, right, bottom, left, each region as the red, green
  and blue value that its colour string denotes (\<open>rgbTriple\<close>). A delta payload is the
  command byte 2, a one-byte count, and for each changed region, in the order of the
  regions, its index in \<open>{0, 1, 2, 3}\<close> with its three colour bytes. A call either hands over
  exactly one such frame or none at all.
\<close>

theorem frame_layout:
  "wire (sendRegionColors e colors s) = wire s \<or>
   (\<exists>d flags payload changed.
      wire (sendRegionColors e colors s) = wire s @ [d] \<and>
      packet d =
        [0xAB, 0xCD, 1, flags,
         seqRef (sendRegionColors e colors s) div 256,
         seqRef (sendRegionColors e colors s) mod 256,
         dateNow e mod 65536 div 256, dateNow e mod 65536 mod 256] @ payload \<and>
      seqRef (sendRegionColors e colors s) < 65536 \<and>
      (\<forall>b \<in> set (packet d). b < 256) \<and>
      changed = filter (\<lambda>i. length (lastRegionsRef s) \<le> i
                              \<or> regionsOf colors ! i \<noteq> lastRegionsRef s ! i) [0, 1, 2, 3] \<and>
      set changed \<subseteq> {0, 1, 2, 3} \<and> length changed < 256 \<and>
      ((flags = 0 \<and> (changed = [] \<or> length changed = 4) \<and>
        payload = 1 # rgbTriple (top_region colors) @ rgbTriple (right_region colors)
                    @ rgbTriple (bottom_region colors) @ rgbTriple (left_region colors) \<and>
        length payload = 13)
       \<or>
       (flags = 1 \<and> changed \<noteq> [] \<and> length changed < 4 \<and>
        payload = 2 # length changed #
          concat (map (\<lambda>i. i # rgbTriple (regionsOf colors ! i)) changed) \<and>
        length payload = 2 + 4 * length changed)))"
  using frame_layout_bytes [of e colors s] by (simp only: hexToRgbBytes_rgbTriple)

theorem frame_layout_witness:
  "(\<exists>d. wire (sendRegionColors nativeEnv grey connectedA) = wire connectedA @ [d] \<and>
        packet d = [171, 205, 1, 0, 0, 1, 104, 0,
                    1, 16, 32, 48, 16, 32, 48, 16, 32, 48, 16, 32, 48]) \<and>
   (\<exists>d. wire (sendRegionColors nativeEnv greyRightWhite
                 (sendRegionColors nativeEnv grey connectedA)) =
          wire (sendRegionColors nativeEnv grey connectedA) @ [d] \<and>
        packet d = [171, 205, 1, 1, 0, 2, 104, 0, 2, 1, 1, 255, 255, 255])"
proof -
  let ?s1 = "sendRegionColors nativeEnv grey connectedA"
  let ?s2 = "sendRegionColors nativeEnv greyRightWhite ?s1"
  have g: "top_region grey = ''#102030''" "right_region grey = ''#102030''"
    "bottom_region grey = ''#102030''" "left_region grey = ''#102030''"
    by (simp_all add: grey_def)
  have l0: "lastRegionsRef connectedA = [Nil, Nil, Nil, Nil]" by (simp add: connectedA_eq)
  have l1: "lastRegionsRef ?s1 = regionsOf grey" and q1: "seqRef ?s1 = 1"
    by (simp_all add: first_frame)
  have c: "connectedDevice ?s1 = Some (deviceA\<lparr>isConnected := True\<rparr>)"
    and u: "udpSocket ?s1 = Some 0"
    by (simp_all add: first_frame) (simp_all add: connectedA_eq)
  have q2: "seqRef ?s2 = 2"
    by (simp add: sendRegionColors_transmits [OF c nativeEnv_simps(1) u] q1)
  have ne1: "wire ?s1 \<noteq> wire connectedA"
    by (simp add: first_frame) (simp add: connectedA_eq)
  have ne2: "wire ?s2 \<noteq> wire ?s1" by (simp add: second_frame)
  have c1: "filter (\<lambda>i. length (lastRegionsRef connectedA) \<le> i
                         \<or> regionsOf grey ! i \<noteq> lastRegionsRef connectedA ! i) [0, 1, 2, 3] =
            [0, 1, 2, 3]"
    by (simp add: l0 regionsOf_grey)
  have c2: "filter (\<lambda>i. length (lastRegionsRef ?s1) \<le> i
                         \<or> regionsOf greyRightWhite ! i \<noteq> lastRegionsRef ?s1 ! i) [0, 1, 2, 3] =
            [1]"
    by (simp add: l1 regionsOf_grey regionsOf_greyRightWhite)
  from frame_layout [of nativeEnv grey connectedA] ne1
  have first: "\<exists>d. wire ?s1 = wire connectedA @ [d] \<and>
        packet d = [171, 205, 1, 0, 0, 1, 104, 0,
                    1, 16, 32, 48, 16, 32, 48, 16, 32, 48, 16, 32, 48]"
    unfolding c1 q1 g by (auto simp: rgbTriple_grey nativeEnv_simps)
  from frame_layout [of nativeEnv greyRightWhite ?s1] ne2
  have second: "\<exists>d. wire ?s2 = wire ?s1 @ [d] \<and>
        packet d = [171, 205, 1, 1, 0, 2, 104, 0, 2, 1, 1, 255, 255, 255]"
    unfolding c2 q2 by (auto simp: rgbTriple_white regionsOf_greyRightWhite nativeEnv_simps)
  from first second show ?thesis by blast
qed

text \<open>
  Claim C2, as amended. On a platform other than the web, with a device connected and its
  socket open, every call of \<^verbatim>\<open>sendRegionColors\<close> hands exactly one frame to the socket,
  addressed to the connected device. The frame is a delta frame (command byte 2, flag 1)
  exactly when one, two or three regions differ from the regions last sent, and a full
  frame (command byte 1, flag 0) when none or all four differ; so a call that changes
  nothing still sends a full frame.
\<close>

theorem delta_selection_rule:
  fixes colors :: region_colors
  assumes "connectedDevice s = Some dev" "platformOS e = Native" "udpSocket s = Some sock"
    and "length (lastRegionsRef s) = 4"
  shows "\<exists>d. wire (sendRegionColors e colors s) = wire s @ [d] \<and>
           via d = sock \<and> toPort d = port dev \<and> toAddress d = ipAddress dev \<and>
           (frameCommand d = 2 \<longleftrightarrow> changedCount colors (lastRegionsRef s) \<in> {1, 2, 3}) \<and>
           (frameCommand d = 1 \<longleftrightarrow> changedCount colors (lastRegionsRef s) = 0
                                    \<or> changedCount colors (lastRegionsRef s) = 4) \<and>
           (frameFlags d = 1 \<longleftrightarrow> changedCount colors (lastRegionsRef s) \<in> {1, 2, 3}) \<and>
           (frameFlags d = 0 \<longleftrightarrow> changedCount colors (lastRegionsRef s) = 0
                                  \<or> changedCount colors (lastRegionsRef s) = 4)"
proof -
  define ch where "ch = detectChanged (regionsOf colors) (lastRegionsRef s) 0 []"
  define n where "n = changedCount colors (lastRegionsRef s)"
  have n: "length ch = n"
    unfolding ch_def n_def using assms(4) by (rule detectChanged_count)
  have le: "n \<le> 4" using detectChanged_length_le [of colors "lastRegionsRef s"]
    by (simp add: n [symmetric] ch_def)
  have delta: "0 < n \<and> n < 4 \<longleftrightarrow> n \<in> {1, 2, 3}" by auto
  have full: "\<not> (0 < n \<and> n < 4) \<longleftrightarrow> n = 0 \<or> n = 4" using le by auto
  have small: "\<forall>i \<in> set ch. i \<le> 255"
    using detectChanged_subset [of colors "lastRegionsRef s"] by (auto simp: ch_def)
  have pd: "buildPayload (regionsOf colors) ch True ! 0 = 2"
    using small le by (simp add: buildPayload_delta n)
  have pf: "buildPayload (regionsOf colors) ch False ! 0 = 1"
    by (simp add: buildPayload_full)
  note tx = sendRegionColors_transmits [OF assms(1-3), of colors, folded ch_def, unfolded n]
  show ?thesis
  proof (cases "0 < n \<and> n < 4")
    case True
    then have b: "(0 < n \<and> n < 4) = True" by simp
    from True have "n \<in> {1, 2, 3}" "n \<noteq> 0" "n \<noteq> 4" "0 < n" "n < 4" by auto
    then show ?thesis
      unfolding n_def [symmetric]
      by (simp add: tx b frameCommand_def frameFlags_def pd)
  next
    case False
    then have b: "(0 < n \<and> n < 4) = False" by simp
    from False have "n = 0 \<or> n = 4" "n \<notin> {1, 2, 3}" using le by auto
    then show ?thesis
      unfolding n_def [symmetric]
      by (simp add: tx b frameCommand_def frameFlags_def pf)
  qed
qed

theorem delta_selection_rule_witness:
  "connectedDevice (sendRegionColors nativeEnv grey connectedA) =
     Some (deviceA\<lparr>isConnected := True\<rparr>) \<and>
   platformOS nativeEnv = Native \<and>
   udpSocket (sendRegionColors nativeEnv grey connectedA) = Some 0 \<and>
   length (lastRegionsRef (sendRegionColors nativeEnv grey connectedA)) = 4 \<and>
   changedCount grey (lastRegionsRef (sendRegionColors nativeEnv grey connectedA)) = 0 \<and>
   (\<exists>d. wire (sendRegionColors nativeEnv grey (sendRegionColors nativeEnv grey connectedA)) =
          wire (sendRegionColors nativeEnv grey connectedA) @ [d] \<and>
        frameCommand d = 1 \<and> frameFlags d = 0)"
proof -
  let ?s = "sendRegionColors nativeEnv grey connectedA"
  have c: "connectedDevice ?s = Some (deviceA\<lparr>isConnected := True\<rparr>)"
    and u: "udpSocket ?s = Some 0"
    by (simp_all add: first_frame) (simp_all add: connectedA_eq)
  have l: "length (lastRegionsRef ?s) = 4"
    by (simp add: first_frame regionsOf_grey)
  have n: "changedCount grey (lastRegionsRef ?s) = 0"
    by (simp add: first_frame changedCount_def regionsOf_grey)
  from delta_selection_rule [OF c nativeEnv_simps(1) u l, of grey]
  have "\<exists>d. wire (sendRegionColors nativeEnv grey ?s) = wire ?s @ [d] \<and>
             frameCommand d = 1 \<and> frameFlags d = 0"
    unfolding n by auto
  with c u l n show ?thesis by (simp add: nativeEnv_simps)
qed

text \<open>
  The claim as first stated speaks of every call with a connected device. On the web a
  device is connected without a socket, and the call returns after recording the regions:
  with a device connected and no region changed, no frame is produced.
\<close>

theorem zero_change_on_web_sends_nothing:
  "connectedDevice webSentGrey = Some (deviceA\<lparr>isConnected := True\<rparr>) \<and>
   changedCount grey (lastRegionsRef webSentGrey) = 0 \<and>
   wire (sendRegionColors webEnv grey webSentGrey) = wire webSentGrey"
proof -
  have c0: "connectedDevice webConnectedA = Some (deviceA\<lparr>isConnected := True\<rparr>)"
    by (simp add: webConnectedA_eq)
  have s: "webSentGrey = webConnectedA\<lparr>lastRegionsRef := regionsOf grey\<rparr>"
    unfolding webSentGrey_def by (rule sendRegionColors_web [OF c0 webEnv_simps])
  have c: "connectedDevice webSentGrey = Some (deviceA\<lparr>isConnected := True\<rparr>)"
    by (simp add: s c0)
  have n: "changedCount grey (lastRegionsRef webSentGrey) = 0"
    by (simp add: s changedCount_def regionsOf_grey)
  have w: "wire (sendRegionColors webEnv grey webSentGrey) = wire webSentGrey"
    by (simp add: sendRegionColors_web [OF c webEnv_simps])
  from c n w show ?thesis by simp
qed

text \<open>
  Claim C3. The changed regions are exactly the indices at which the new colour string
  differs from the string last sent, listed in the order top (0), right (1), bottom (2),
  left (3). The comparison is equality of strings: two spellings of one colour differ.
\<close>

theorem changed_indexes_exact:
  fixes colors :: region_colors
  assumes "length lastRegions = 4"
  shows "detectChanged
           [top_region colors, right_region colors, bottom_region colors, left_region colors]
           lastRegions 0 [] =
         filter (\<lambda>i. [top_region colors, right_region colors, bottom_region colors,
                       left_region colors] ! i \<noteq> lastRegions ! i) [0, 1, 2, 3]"
proof -
  have "filter (\<lambda>j. Some (regionsOf colors ! j) \<noteq> js_index lastRegions j) [0, 1, 2, 3] =
        filter (\<lambda>i. regionsOf colors ! i \<noteq> lastRegions ! i) [0, 1, 2, 3]"
    by (rule filter_cong) (auto simp: js_index_def assms)
  then have "detectChanged (regionsOf colors) lastRegions 0 [] =
             filter (\<lambda>i. regionsOf colors ! i \<noteq> lastRegions ! i) [0, 1, 2, 3]"
    by (simp add: detectChanged_regions)
  then show ?thesis by (simp only: regionsOf_def)
qed

theorem changed_indexes_exact_witness:
  "length [''#102030'', ''#102030'', ''#102030'', ''#102030''] = 4 \<and>
   detectChanged [''#102030'', ''#FFFFFF'', ''#102030'', ''#10203''] 
     [''#102030'', ''#ffffff'', ''#102030'', ''#102030''] 0 [] = [1, 3]"
proof -
  have h: "length [''#102030'', ''#ffffff'', ''#102030'', ''#102030''] = 4" by simp
  show ?thesis
    using changed_indexes_exact [OF h, of "\<lparr>top_region = ''#102030'', right_region = ''#FFFFFF'',
        bottom_region = ''#102030'', left_region = ''#10203''\<rparr>"]
    by simp
qed

text \<open>
  Claim C8. Whenever a device is connected, a call of \<^verbatim>\<open>sendRegionColors\<close> stores the new
  four regions as the regions last sent, on every platform, with or without a socket, and
  whatever becomes of the send.
\<close>

theorem last_sent_committed:
  fixes colors :: region_colors
  assumes "connectedDevice s = Some dev"
  shows "lastRegionsRef (sendRegionColors e colors s) =
           [top_region colors, right_region colors, bottom_region colors, left_region colors]"
proof (cases "platformOS e")
  case Web
  with assms show ?thesis by (simp add: sendRegionColors_web regionsOf_def)
next
  case Native
  show ?thesis
  proof (cases "udpSocket s")
    case None
    with assms show ?thesis by (simp add: sendRegionColors_no_socket regionsOf_def)
  next
    case (Some sock)
    show ?thesis
      by (simp add: sendRegionColors_transmits [OF assms Native Some] regionsOf_def)
  qed
qed

theorem last_sent_committed_witness:
  "connectedDevice connectedA = Some (deviceA\<lparr>isConnected := True\<rparr>) \<and>
   connectedDevice webConnectedA = Some (deviceA\<lparr>isConnected := True\<rparr>) \<and>
   udpSocket webConnectedA = None \<and>
   sendOutcome failingEnv = SendThrows \<and>
   lastRegionsRef (sendRegionColors failingEnv grey connectedA) =
     [''#102030'', ''#102030'', ''#102030'', ''#102030''] \<and>
   lastRegionsRef (sendRegionColors webEnv grey webConnectedA) =
     [''#102030'', ''#102030'', ''#102030'', ''#102030'']"
proof -
  have a: "connectedDevice connectedA = Some (deviceA\<lparr>isConnected := True\<rparr>)"
    by (simp add: connectedA_eq)
  have b: "connectedDevice webConnectedA = Some (deviceA\<lparr>isConnected := True\<rparr>)"
    by (simp add: webConnectedA_eq)
  have c: "udpSocket webConnectedA = None" by (simp add: webConnectedA_eq)
  show ?thesis
    using a b c last_sent_committed [OF a, of failingEnv grey]
      last_sent_committed [OF b, of webEnv grey]
    by (simp add: failingEnv_simps grey_def)
qed

text \<open>
  Claim C10. A string that is not an optional \<^verbatim>\<open>#\<close> followed by exactly six hexadecimal
  digits is converted to the bytes 0, 0, 0, so a malformed colour goes out as black:
  \<^verbatim>\<open>sendColor\<close> hands the packet 0, 0, 0, 0 to the socket, with no error and no skipped
  send. (The frames of \<^verbatim>\<open>sendRegionColors\<close> carry the same conversion, by claim C1.)
\<close>

theorem malformed_hex_is_black:
  assumes "\<not> matchesHexColor hex"
  shows "hexToRgbBytes hex = [0, 0, 0] \<and>
         (connectedDevice s = Some dev \<and> platformOS e = Native \<and> udpSocket s = Some sock \<longrightarrow>
            wire (sendColor e hex s) =
              wire s @ [\<lparr>via = sock, packet = [0, 0, 0, 0], toPort = port dev,
                         toAddress = ipAddress dev, outcome = sendOutcome e\<rparr>])"
proof -
  have black: "hexToRgbBytes hex = [0, 0, 0]"
    using assms by (cases "hexRegexExec hex") (auto simp: hexToRgbBytes_def dest: hexRegexExec_Some)
  then show ?thesis
    by (simp add: sendColor_def Let_def Buffer_from_def)
qed

theorem malformed_hex_is_black_witness:
  "\<not> matchesHexColor ''#12345'' \<and> hexToRgbBytes ''#12345'' = [0, 0, 0] \<and>
   wire (sendColor nativeEnv ''#12345'' connectedA) =
     [\<lparr>via = 0, packet = [0, 0, 0, 0], toPort = 7777, toAddress = ''192.168.1.20'',
       outcome = SendOk\<rparr>]"
proof -
  have h: "\<not> matchesHexColor ''#12345''" by (simp add: matchesHexColor_def)
  have c: "connectedDevice connectedA = Some (deviceA\<lparr>isConnected := True\<rparr>)"
    "udpSocket connectedA = Some 0" "wire connectedA = []"
    by (simp_all add: connectedA_eq)
  from malformed_hex_is_black [OF h, of connectedA "deviceA\<lparr>isConnected := True\<rparr>" nativeEnv 0]
  show ?thesis using h c by (simp add: nativeEnv_simps deviceA_def)
qed

section \<open>The sequence counter\<close>

lemma mod_shift_neq:
  fixes a j k M :: nat
  assumes "j < k" "k - j < M"
  shows "(a + j) mod M \<noteq> (a + k) mod M"
proof
  assume "(a + j) mod M = (a + k) mod M"
  then have "M dvd (a + k) - (a + j)"
    using assms(1) by (metis mod_eq_dvd_iff_nat add_le_cancel_left less_imp_le)
  then have "M dvd k - j" by simp
  moreover have "0 < k - j" using assms(1) by simp
  ultimately have "M \<le> k - j" by (rule dvd_imp_le)
  with assms(2) show False by simp
qed

lemma distinct_mod_shift:
  fixes a n M :: nat
  assumes "n \<le> M"
  shows "distinct (map (\<lambda>k. (a + k) mod M) [1..<Suc n])"
proof -
  have "inj_on (\<lambda>k. (a + k) mod M) (set [1..<Suc n])"
  proof (rule inj_onI)
    fix x y
    assume x: "x \<in> set [1..<Suc n]" and y: "y \<in> set [1..<Suc n]"
      and eq: "(a + x) mod M = (a + y) mod M"
    show "x = y"
    proof (rule ccontr)
      assume "x \<noteq> y"
      then consider "x < y" | "y < x" by linarith
      then show False
      proof cases
        case 1
        with x y assms have "y - x < M" by auto
        from mod_shift_neq [OF 1 this, of a] eq show False by simp
      next
        case 2
        with x y assms have "x - y < M" by auto
        from mod_shift_neq [OF 2 this, of a] eq [symmetric] show False by simp
      qed
    qed
  qed
  then show ?thesis by (simp add: distinct_map)
qed

lemma sendFrames_Nil: "sendFrames [] s = s"
  by (simp add: sendFrames_def)

lemma sendFrames_Cons:
  "sendFrames ((e, colors) # calls) s = sendFrames calls (sendRegionColors e colors s)"
  by (simp add: sendFrames_def)

lemma frameSeq_header:
  "sq < 65536 \<Longrightarrow>
   frameSeq \<lparr>via = v, packet = [h0, h1, h2, h3, sq div 256, sq mod 256, h6, h7] @ payload,
             toPort = p, toAddress = a, outcome = out\<rparr> = sq"
  by (simp add: frameSeq_def)

lemma sendRegionColors_step:
  assumes "connectedDevice s = Some dev" "platformOS e = Native" "udpSocket s = Some sock"
  shows "\<exists>d. wire (sendRegionColors e colors s) = wire s @ [d] \<and>
             frameSeq d = (seqRef s + 1) mod 65536 \<and>
             seqRef (sendRegionColors e colors s) = (seqRef s + 1) mod 65536 \<and>
             connectedDevice (sendRegionColors e colors s) = Some dev \<and>
             udpSocket (sendRegionColors e colors s) = Some sock"
  using assms by (simp add: sendRegionColors_transmits [OF assms] frameSeq_def)

lemma sendFrames_sequence:
  assumes "connectedDevice s = Some dev" "udpSocket s = Some sock"
    and "\<forall>c \<in> set calls. platformOS (fst c) = Native"
  shows "\<exists>frames. wire (sendFrames calls s) = wire s @ frames \<and>
           map frameSeq frames = map (\<lambda>k. (seqRef s + k) mod 65536) [1..<Suc (length calls)] \<and>
           seqRef (sendFrames calls s) =
             (if calls = [] then seqRef s else (seqRef s + length calls) mod 65536)"
  using assms
proof (induction calls arbitrary: s)
  case Nil
  then show ?case by (simp add: sendFrames_Nil)
next
  case (Cons c calls)
  obtain e colors where c: "c = (e, colors)" by (cases c)
  let ?s' = "sendRegionColors e colors s"
  from Cons.prems(3) have nat: "platformOS e = Native"
    and rest: "\<forall>c \<in> set calls. platformOS (fst c) = Native"
    by (simp_all add: c)
  from sendRegionColors_step [OF Cons.prems(1) nat Cons.prems(2), of colors]
  obtain d where w: "wire ?s' = wire s @ [d]"
    and fd: "frameSeq d = (seqRef s + 1) mod 65536"
    and q: "seqRef ?s' = (seqRef s + 1) mod 65536"
    and cd: "connectedDevice ?s' = Some dev" and us: "udpSocket ?s' = Some sock"
    by blast
  from Cons.IH [OF cd us rest]
  obtain frames where w': "wire (sendFrames calls ?s') = wire ?s' @ frames"
    and m: "map frameSeq frames =
              map (\<lambda>k. (seqRef ?s' + k) mod 65536) [1..<Suc (length calls)]"
    and q': "seqRef (sendFrames calls ?s') =
               (if calls = [] then seqRef ?s' else (seqRef ?s' + length calls) mod 65536)"
    by blast
  have shift: "map (\<lambda>k. (seqRef ?s' + k) mod 65536) [1..<Suc (length calls)] =
               map (\<lambda>k. (seqRef s + k) mod 65536) [2..<Suc (Suc (length calls))]"
  proof -
    have "map Suc [1..<Suc (length calls)] = [Suc 1..<Suc (Suc (length calls))]"
      by (rule map_Suc_upt)
    then have "[2..<Suc (Suc (length calls))] = map Suc [1..<Suc (length calls)]"
      by (simp only: Suc_1)
    then show ?thesis
      by (simp only: q list.map_comp comp_def) (simp add: mod_add_left_eq)
  qed
  have upt: "[1..<Suc (length (c # calls))] = 1 # [2..<Suc (Suc (length calls))]"
  proof -
    have "[1..<Suc (Suc (length calls))] = 1 # [Suc 1..<Suc (Suc (length calls))]"
      by (rule upt_conv_Cons) simp
    then show ?thesis by (simp only: length_Cons Suc_1)
  qed
  have "wire (sendFrames (c # calls) s) = wire s @ (d # frames)"
    by (simp add: c sendFrames_Cons w' w)
  moreover have "map frameSeq (d # frames) =
      map (\<lambda>k. (seqRef s + k) mod 65536) [1..<Suc (length (c # calls))]"
    unfolding upt using m shift fd by simp
  moreover have "seqRef (sendFrames (c # calls) s) = (seqRef s + length (c # calls)) mod 65536"
    by (simp add: c sendFrames_Cons q' q mod_add_left_eq)
  ultimately show ?case by (intro exI [of _ "d # frames"]) simp
qed

text \<open>
  Claim C4. While a device stays connected over its socket, consecutive calls hand over
  one frame each, and the sequence number of a frame is that of the frame before plus 1
  modulo 65536, starting one above the counter. After 65536 frames the counter is back at
  its starting value, and no sequence number occurs twice among up to 65536 consecutive
  frames.
\<close>

theorem sequence_counter_wraps:
  assumes "connectedDevice s = Some dev" "udpSocket s = Some sock"
    and "\<forall>c \<in> set calls. platformOS (fst c) = Native"
    and "seqRef s < 65536"
  shows "\<exists>frames.
           wire (sendFrames calls s) = wire s @ frames \<and> length frames = length calls \<and>
           (\<forall>k < length frames. frameSeq (frames ! k) = (seqRef s + k + 1) mod 65536) \<and>
           (\<forall>k. Suc k < length frames \<longrightarrow>
                frameSeq (frames ! Suc k) = (frameSeq (frames ! k) + 1) mod 65536) \<and>
           seqRef (sendFrames calls s) = (seqRef s + length calls) mod 65536 \<and>
           (length calls = 65536 \<longrightarrow> seqRef (sendFrames calls s) = seqRef s) \<and>
           (length calls \<le> 65536 \<longrightarrow> distinct (map frameSeq frames))"
proof -
  from sendFrames_sequence [OF assms(1-3)]
  obtain frames where w: "wire (sendFrames calls s) = wire s @ frames"
    and m: "map frameSeq frames =
              map (\<lambda>k. (seqRef s + k) mod 65536) [1..<Suc (length calls)]"
    and q: "seqRef (sendFrames calls s) =
              (if calls = [] then seqRef s else (seqRef s + length calls) mod 65536)"
    by blast
  have len: "length frames = length calls"
    using arg_cong [OF m, of length] by (simp only: length_map length_upt diff_Suc_1)
  have nth: "frameSeq (frames ! k) = (seqRef s + k + 1) mod 65536" if "k < length frames" for k
  proof -
    have "frameSeq (frames ! k) = map frameSeq frames ! k" using that by simp
    also have "\<dots> = (seqRef s + ([1..<Suc (length calls)] ! k)) mod 65536"
      unfolding m using that len by (simp only: nth_map length_upt diff_Suc_1)
    also have "[1..<Suc (length calls)] ! k = 1 + k"
      using that len by (intro nth_upt) simp
    finally show ?thesis by (simp add: add.assoc)
  qed
  have succ: "frameSeq (frames ! Suc k) = (frameSeq (frames ! k) + 1) mod 65536"
    if "Suc k < length frames" for k
  proof -
    from that have "k < length frames" by simp
    then show ?thesis by (simp add: nth [OF that] nth mod_Suc_eq)
  qed
  have q': "seqRef (sendFrames calls s) = (seqRef s + length calls) mod 65536"
    using q assms(4) by simp
  have wrap: "seqRef (sendFrames calls s) = seqRef s" if "length calls = 65536"
    using that assms(4) by (simp add: q')
  have dist: "distinct (map frameSeq frames)" if "length calls \<le> 65536"
    unfolding m using that by (rule distinct_mod_shift)
  from w len nth succ q' wrap dist show ?thesis by blast
qed

theorem sequence_counter_wraps_witness:
  "seqRef connectedA = 0 \<and>
   length (replicate 65536 (nativeEnv, grey)) = 65536 \<and>
   seqRef (sendFrames (replicate 65536 (nativeEnv, grey)) connectedA) = 0 \<and>
   (\<exists>frames. wire (sendFrames (replicate 65536 (nativeEnv, grey)) connectedA) = frames \<and>
      length frames = 65536 \<and> frameSeq (frames ! 0) = 1 \<and> frameSeq (frames ! 65535) = 0 \<and>
      distinct (map frameSeq frames))"
proof -
  have c: "connectedDevice connectedA = Some (deviceA\<lparr>isConnected := True\<rparr>)"
    and u: "udpSocket connectedA = Some 0"
    and q: "seqRef connectedA = 0" and w: "wire connectedA = []"
    by (simp_all add: connectedA_eq)
  have n: "\<forall>c \<in> set (replicate 65536 (nativeEnv, grey)). platformOS (fst c) = Native"
    by (simp add: nativeEnv_simps)
  have b: "seqRef connectedA < 65536" by (simp add: q)
  from sequence_counter_wraps [OF c u n b]
  obtain frames where
    f1: "wire (sendFrames (replicate 65536 (nativeEnv, grey)) connectedA) = wire connectedA @ frames"
    and f2: "length frames = length (replicate 65536 (nativeEnv, grey))"
    and f3: "\<forall>k < length frames. frameSeq (frames ! k) = (seqRef connectedA + k + 1) mod 65536"
    and f4: "length (replicate 65536 (nativeEnv, grey)) = 65536 \<longrightarrow>
             seqRef (sendFrames (replicate 65536 (nativeEnv, grey)) connectedA) = seqRef connectedA"
    and f5: "length (replicate 65536 (nativeEnv, grey)) \<le> 65536 \<longrightarrow>
             distinct (map frameSeq frames)"
    by blast
  have l: "length frames = 65536" using f2 by simp
  have "frameSeq (frames ! 0) = 1" "frameSeq (frames ! 65535) = 0"
    using f3 l by (simp_all add: q)
  with f1 f4 f5 l q w show ?thesis by simp
qed

section \<open>The device registry\<close>

lemma findIndex_None: "findIndex P xs = None \<longleftrightarrow> (\<forall>x \<in> set xs. \<not> P x)"
  by (induction xs) auto

lemma findIndex_Some:
  "findIndex P xs = Some i \<Longrightarrow> i < length xs \<and> P (xs ! i) \<and> (\<forall>j < i. \<not> P (xs ! j))"
proof (induction xs arbitrary: i)
  case Nil
  then show ?case by simp
next
  case (Cons x xs)
  show ?case
  proof (cases "P x")
    case True
    with Cons.prems show ?thesis by simp
  next
    case False
    with Cons.prems obtain i' where i: "i = Suc i'" and f: "findIndex P xs = Some i'"
      by auto
    from Cons.IH [OF f] False show ?thesis
      by (auto simp: i less_Suc_eq_0_disj)
  qed
qed

lemma map_ipAddress_rssi_update:
  "i < length prev \<Longrightarrow>
   map ipAddress (prev[i := (prev ! i)\<lparr>rssi := r\<rparr>]) = map ipAddress prev"
  by (simp add: map_update list_update_same_conv)

lemma update_unique_address:
  assumes "distinct (map ipAddress prev)" "i < length prev"
  shows "prev[i := (prev ! i)\<lparr>rssi := r\<rparr>] =
         map (\<lambda>d. if ipAddress d = ipAddress (prev ! i) then d\<lparr>rssi := r\<rparr> else d) prev"
proof (rule nth_equalityI)
  show "length (prev[i := (prev ! i)\<lparr>rssi := r\<rparr>]) =
        length (map (\<lambda>d. if ipAddress d = ipAddress (prev ! i) then d\<lparr>rssi := r\<rparr> else d) prev)"
    by simp
next
  fix j
  assume "j < length (prev[i := (prev ! i)\<lparr>rssi := r\<rparr>])"
  then have j: "j < length prev" by simp
  show "prev[i := (prev ! i)\<lparr>rssi := r\<rparr>] ! j =
        map (\<lambda>d. if ipAddress d = ipAddress (prev ! i) then d\<lparr>rssi := r\<rparr> else d) prev ! j"
  proof (cases "j = i")
    case True
    with j show ?thesis by simp
  next
    case False
    have "ipAddress (prev ! j) \<noteq> ipAddress (prev ! i)"
      using assms j False nth_eq_iff_index_eq [of "map ipAddress prev" j i] by simp
    with j False show ?thesis by simp
  qed
qed

lemma onMessage_distinct:
  "distinct (map ipAddress (devices s)) \<Longrightarrow>
   distinct (map ipAddress (devices (onMessage msg address s)))"
proof (cases msg)
  case None
  then show "distinct (map ipAddress (devices s)) \<Longrightarrow> ?thesis" by (simp add: onMessage_def)
next
  case (Some response)
  assume d: "distinct (map ipAddress (devices s))"
  show ?thesis
  proof (cases "rtype response = Some ''ESP_LED_DEVICE''")
    case True
    have "devices (onMessage (Some response) address s) =
            registerDevice (newDeviceOf response address) (devices s)"
      using True by (simp add: onMessage_def)
    moreover have "distinct (map ipAddress (registerDevice (newDeviceOf response address) (devices s)))"
    proof (cases "findIndex (\<lambda>d. ipAddress d = address) (devices s)")
      case None
      then have "address \<notin> set (map ipAddress (devices s))"
        by (auto simp: findIndex_None)
      moreover have "registerDevice (newDeviceOf response address) (devices s) =
                       devices s @ [newDeviceOf response address]"
        using None by (simp add: registerDevice_def newDeviceOf_def)
      ultimately show ?thesis
        using d by (simp add: newDeviceOf_def)
    next
      case (Some i)
      from findIndex_Some [OF Some] have "i < length (devices s)" by simp
      then show ?thesis
        using d Some by (simp add: registerDevice_def newDeviceOf_def map_ipAddress_rssi_update)
    qed
    ultimately show ?thesis by (simp add: Some)
  next
    case False
    with d show ?thesis by (simp add: Some onMessage_def)
  qed
qed

lemma scan_registry_distinct:
  "distinct (map ipAddress (devices s)) \<Longrightarrow>
   distinct (map ipAddress (devices (fold (\<lambda>(msg, address). onMessage msg address) msgs s)))"
  by (induction msgs arbitrary: s) (auto simp: onMessage_distinct)

text \<open>
  Claim C9. The registry is keyed by the address of the sender, not by the id. An accepted
  response from an address that no entry has appends a new device at the end. An accepted
  response from an address that is in the registry changes only the signal strength of
  the first entry with that address, whatever id the response carries. Either way the list
  of addresses is the old one, with the new address at the end when it was not there, so
  the entries keep their first-seen order; distinct addresses stay distinct, and then the
  entry refreshed is the only one with its address. A registry that a scan has emptied
  holds distinct addresses after any sequence of datagrams.
\<close>

theorem registry_keyed_by_address:
  assumes "rtype response = Some ''ESP_LED_DEVICE''"
  shows "(address \<notin> set (map ipAddress (devices s)) \<longrightarrow>
            devices (onMessage (Some response) address s) =
              devices s @ [newDeviceOf response address]) \<and>
         (address \<in> set (map ipAddress (devices s)) \<longrightarrow>
            (\<exists>i < length (devices s).
               ipAddress (devices s ! i) = address \<and>
               (\<forall>j < i. ipAddress (devices s ! j) \<noteq> address) \<and>
               devices (onMessage (Some response) address s) =
                 (devices s)[i := (devices s ! i)\<lparr>rssi := rrssi response\<rparr>])) \<and>
         map ipAddress (devices (onMessage (Some response) address s)) =
           (if address \<in> set (map ipAddress (devices s)) then map ipAddress (devices s)
            else map ipAddress (devices s) @ [address]) \<and>
         (distinct (map ipAddress (devices s)) \<longrightarrow>
            distinct (map ipAddress (devices (onMessage (Some response) address s))) \<and>
            (address \<in> set (map ipAddress (devices s)) \<longrightarrow>
               devices (onMessage (Some response) address s) =
                 map (\<lambda>d. if ipAddress d = address then d\<lparr>rssi := rrssi response\<rparr> else d)
                   (devices s))) \<and>
         distinct (map ipAddress
           (devices (fold (\<lambda>(msg, a). onMessage msg a) msgs (s\<lparr>devices := []\<rparr>)))) \<and>
         ipAddress (newDeviceOf response address) = address \<and>
         rssi (newDeviceOf response address) = rrssi response \<and>
         \<not> isConnected (newDeviceOf response address)"
proof -
  let ?new = "newDeviceOf response address"
  let ?s' = "onMessage (Some response) address s"
  have a: "ipAddress ?new = address" and r: "rssi ?new = rrssi response"
    and n: "\<not> isConnected ?new"
    by (simp_all add: newDeviceOf_def)
  have dev: "devices ?s' = registerDevice ?new (devices s)"
    using assms by (simp add: onMessage_def)
  have fresh: "devices ?s' = devices s @ [?new]"
    if "address \<notin> set (map ipAddress (devices s))"
  proof -
    from that have "findIndex (\<lambda>d. ipAddress d = address) (devices s) = None"
      by (auto simp: findIndex_None)
    then show ?thesis by (simp add: dev registerDevice_def a)
  qed
  have known: "\<exists>i < length (devices s).
       ipAddress (devices s ! i) = address \<and>
       (\<forall>j < i. ipAddress (devices s ! j) \<noteq> address) \<and>
       devices ?s' = (devices s)[i := (devices s ! i)\<lparr>rssi := rrssi response\<rparr>]"
    if "address \<in> set (map ipAddress (devices s))"
  proof -
    from that have "findIndex (\<lambda>d. ipAddress d = address) (devices s) \<noteq> None"
      by (auto simp: findIndex_None)
    then obtain i where i: "findIndex (\<lambda>d. ipAddress d = address) (devices s) = Some i"
      by blast
    from findIndex_Some [OF i] have "i < length (devices s)"
      "ipAddress (devices s ! i) = address" "\<forall>j < i. ipAddress (devices s ! j) \<noteq> address"
      by auto
    moreover have "devices ?s' = (devices s)[i := (devices s ! i)\<lparr>rssi := rrssi response\<rparr>]"
      using i by (simp add: dev registerDevice_def a r)
    ultimately show ?thesis by blast
  qed
  have addrs: "map ipAddress (devices ?s') =
      (if address \<in> set (map ipAddress (devices s)) then map ipAddress (devices s)
       else map ipAddress (devices s) @ [address])"
  proof (cases "address \<in> set (map ipAddress (devices s))")
    case True
    from known [OF True] obtain i where "i < length (devices s)"
      and "devices ?s' = (devices s)[i := (devices s ! i)\<lparr>rssi := rrssi response\<rparr>]"
      by blast
    with True show ?thesis by (simp add: map_ipAddress_rssi_update)
  next
    case False
    with fresh [OF False] show ?thesis by (simp add: a)
  qed
  have keeps: "distinct (map ipAddress (devices ?s'))"
    if "distinct (map ipAddress (devices s))"
    using that by (rule onMessage_distinct)
  have only: "devices ?s' =
      map (\<lambda>d. if ipAddress d = address then d\<lparr>rssi := rrssi response\<rparr> else d) (devices s)"
    if d: "distinct (map ipAddress (devices s))"
      and m: "address \<in> set (map ipAddress (devices s))"
  proof -
    from known [OF m] obtain i where i: "i < length (devices s)"
      and ai: "ipAddress (devices s ! i) = address"
      and u: "devices ?s' = (devices s)[i := (devices s ! i)\<lparr>rssi := rrssi response\<rparr>]"
      by blast
    show ?thesis
      unfolding u using update_unique_address [OF d i, of "rrssi response"] by (simp add: ai)
  qed
  have scan: "distinct (map ipAddress
      (devices (fold (\<lambda>(msg, a). onMessage msg a) msgs (s\<lparr>devices := []\<rparr>))))"
    by (rule scan_registry_distinct) simp
  from fresh known addrs keeps only scan a r n show ?thesis by blast
qed

theorem registry_keyed_by_address_witness:
  "rtype response1 = Some ''ESP_LED_DEVICE'' \<and> rtype response2 = Some ''ESP_LED_DEVICE'' \<and>
   rtype response3 = Some ''ESP_LED_DEVICE'' \<and>
   rid response1 = Some ''esp-c'' \<and> rid response2 = Some ''esp-d'' \<and>
   rid response3 = Some ''esp-c'' \<and>
   devices (onMessage (Some response1) ''192.168.1.50'' initialProvider) =
     [\<lparr>dev_id = ''esp-c'', name = ''ESP LED (192.168.1.50)'', ipAddress = ''192.168.1.50'',
       port = 7777, rssi = Some (- 40), isConnected = False\<rparr>] \<and>
   devices (onMessage (Some response2) ''192.168.1.50''
             (onMessage (Some response1) ''192.168.1.50'' initialProvider)) =
     [\<lparr>dev_id = ''esp-c'', name = ''ESP LED (192.168.1.50)'', ipAddress = ''192.168.1.50'',
       port = 7777, rssi = Some (- 55), isConnected = False\<rparr>] \<and>
   devices (onMessage (Some response3) ''192.168.1.51''
             (onMessage (Some response2) ''192.168.1.50''
               (onMessage (Some response1) ''192.168.1.50'' initialProvider))) =
     [\<lparr>dev_id = ''esp-c'', name = ''ESP LED (192.168.1.50)'', ipAddress = ''192.168.1.50'',
       port = 7777, rssi = Some (- 55), isConnected = False\<rparr>,
      \<lparr>dev_id = ''esp-c'', name = ''ESP LED (192.168.1.51)'', ipAddress = ''192.168.1.51'',
       port = 7777, rssi = Some (- 60), isConnected = False\<rparr>]"
proof -
  let ?a = "''192.168.1.50''"
  let ?b = "''192.168.1.51''"
  let ?s1 = "onMessage (Some response1) ?a initialProvider"
  let ?s2 = "onMessage (Some response2) ?a ?s1"
  let ?s3 = "onMessage (Some response3) ?b ?s2"
  have t: "rtype response1 = Some ''ESP_LED_DEVICE''" "rtype response2 = Some ''ESP_LED_DEVICE''"
    "rtype response3 = Some ''ESP_LED_DEVICE''"
    and ids: "rid response1 = Some ''esp-c''" "rid response2 = Some ''esp-d''"
    "rid response3 = Some ''esp-c''"
    by (simp_all add: response1_def response2_def response3_def)
  have n1: "newDeviceOf response1 ?a =
     \<lparr>dev_id = ''esp-c'', name = ''ESP LED (192.168.1.50)'', ipAddress = ?a,
      port = 7777, rssi = Some (- 40), isConnected = False\<rparr>"
    and n3: "newDeviceOf response3 ?b =
     \<lparr>dev_id = ''esp-c'', name = ''ESP LED (192.168.1.51)'', ipAddress = ?b,
      port = 7777, rssi = Some (- 60), isConnected = False\<rparr>"
    and r2: "rrssi response2 = Some (- 55)"
    by (simp_all add: newDeviceOf_def orString_def orNumber_def response1_def response2_def
        response3_def ESP_UDP_PORT_def)
  have m1: "?a \<notin> set (map ipAddress (devices initialProvider))"
    by (simp add: initialProvider_def)
  have s1: "devices ?s1 =
     [\<lparr>dev_id = ''esp-c'', name = ''ESP LED (192.168.1.50)'', ipAddress = ?a,
       port = 7777, rssi = Some (- 40), isConnected = False\<rparr>]"
    using registry_keyed_by_address [OF t(1), of ?a initialProvider, THEN conjunct1,
        rule_format, OF m1]
    by (simp add: n1 initialProvider_def)
  have m2: "?a \<in> set (map ipAddress (devices ?s1))"
    by (simp add: s1)
  from registry_keyed_by_address [OF t(2), of ?a ?s1, THEN conjunct2, THEN conjunct1,
      rule_format, OF m2]
  obtain i where i: "i < length (devices ?s1)"
    and u: "devices ?s2 = (devices ?s1)[i := (devices ?s1 ! i)\<lparr>rssi := rrssi response2\<rparr>]"
    by blast
  from i have i0: "i = 0" by (simp add: s1)
  have s2: "devices ?s2 =
     [\<lparr>dev_id = ''esp-c'', name = ''ESP LED (192.168.1.50)'', ipAddress = ?a,
       port = 7777, rssi = Some (- 55), isConnected = False\<rparr>]"
    by (simp add: u i0 s1 r2)
  have m3: "?b \<notin> set (map ipAddress (devices ?s2))"
    by (simp add: s2)
  have s3: "devices ?s3 =
     [\<lparr>dev_id = ''esp-c'', name = ''ESP LED (192.168.1.50)'', ipAddress = ?a,
       port = 7777, rssi = Some (- 55), isConnected = False\<rparr>,
      \<lparr>dev_id = ''esp-c'', name = ''ESP LED (192.168.1.51)'', ipAddress = ?b,
       port = 7777, rssi = Some (- 60), isConnected = False\<rparr>]"
    using registry_keyed_by_address [OF t(3), of ?b ?s2, THEN conjunct1, rule_format, OF m3]
    by (simp add: n3 s2)
  from t ids s1 s2 s3 show ?thesis by simp
qed

section \<open>Connecting, and the refs across sessions\<close>

lemma connectDevice_refs:
  "seqRef (connectDevice e device s) = seqRef s"
  "lastRegionsRef (connectDevice e device s) = lastRegionsRef s"
  by (simp_all add: connectDevice_def)

lemma connectBound_refs:
  "seqRef (connectBound sock s) = seqRef s"
  "lastRegionsRef (connectBound sock s) = lastRegionsRef s"
  by (simp_all add: connectBound_def split: option.splits)

lemma disconnectDevice_refs:
  "seqRef (disconnectDevice e s) = seqRef s"
  "lastRegionsRef (disconnectDevice e s) = lastRegionsRef s"
  by (simp_all add: disconnectDevice_def Let_def split: option.splits)

lemma reconnectedA_eq:
  "reconnectedA =
     \<lparr>devices = [deviceA\<lparr>isConnected := True\<rparr>, deviceB],
      connectedDevice = Some (deviceA\<lparr>isConnected := True\<rparr>), isScanning = False,
      udpSocket = Some 1, seqRef = 1, lastRegionsRef = regionsOf grey,
      openSockets = [1], nextSocket = 2, connectBinds = [], scanBinds = [],
      scanIntervals = [], scanTimeouts = [], mockTimeouts = 0,
      wire = [\<lparr>via = 0,
                packet = [171, 205, 1, 0, 0, 1, 104, 0,
                          1, 16, 32, 48, 16, 32, 48, 16, 32, 48, 16, 32, 48],
                toPort = 7777, toAddress = ''192.168.1.20'', outcome = SendOk\<rparr>]\<rparr>"
  by (simp add: reconnectedA_def first_frame)
     (simp add: connectedA_eq connectAndBind_def connectDevice_def connectBound_def
        disconnectDevice_def nativeEnv_simps markConnected_def deviceA_def deviceB_def)

text \<open>
  In every state that a run reaches from the initial provider the counter is below 65536
  and four regions are recorded as last sent.
\<close>

lemma sendRegionColors_refs_ok: "refs_ok s \<Longrightarrow> refs_ok (sendRegionColors e colors s)"
proof (cases "connectedDevice s")
  case None
  then show "refs_ok s \<Longrightarrow> ?thesis" by (simp add: sendRegionColors_not_connected)
next
  case (Some dev)
  assume ok: "refs_ok s"
  show ?thesis
  proof (cases "platformOS e")
    case Web
    with Some ok show ?thesis
      by (simp add: sendRegionColors_web refs_ok_def length_regionsOf)
  next
    case Native
    show ?thesis
    proof (cases "udpSocket s")
      case None
      with Some ok show ?thesis
        by (simp add: sendRegionColors_no_socket refs_ok_def length_regionsOf)
    next
      case (Some sock)
      show ?thesis
        by (simp add: sendRegionColors_transmits [OF \<open>connectedDevice s = Some dev\<close> Native Some]
            refs_ok_def length_regionsOf)
    qed
  qed
qed

lemma step_refs_ok: "refs_ok s \<Longrightarrow> refs_ok (step e ev s)"
proof (cases ev)
  case (SendRegionColors colors)
  then show "refs_ok s \<Longrightarrow> ?thesis" by (simp add: sendRegionColors_refs_ok)
qed (auto simp: refs_ok_def startScan_def scanBound_def sendDiscovery_def intervalTick_def
      scanTimeout_def mockTimeout_def stopScan_def onMessage_def connectDevice_refs
      connectBound_refs disconnectDevice_refs sendColor_def Let_def
      split: option.splits)

lemma run_refs_ok: "refs_ok s \<Longrightarrow> refs_ok (run evs s)"
  unfolding run_def by (induction evs arbitrary: s) (auto simp: step_refs_ok)

lemma reachable_refs_ok: "refs_ok (run evs initialProvider)"
  by (rule run_refs_ok) (simp add: refs_ok_def initialProvider_def)

text \<open>
  Claim C6, as amended. The counter and the regions last sent belong to the provider, not
  to a connection: they are 0 and four empty strings when the provider is created, and
  neither a connect nor a disconnect changes them. While the regions last sent are still
  the four empty strings, a frame of four non-empty colour strings is a full update, so the
  first frame of a provider is full; after a reconnect the counter goes on and the frame is
  encoded against the regions sent in the earlier session.
\<close>

theorem connect_keeps_counter_and_baseline:
  fixes colors :: region_colors
  shows
  "seqRef initialProvider = 0 \<and> lastRegionsRef initialProvider = [Nil, Nil, Nil, Nil] \<and>
   seqRef (connectAndBind e device s) = seqRef s \<and>
   lastRegionsRef (connectAndBind e device s) = lastRegionsRef s \<and>
   seqRef (disconnectDevice e s) = seqRef s \<and>
   lastRegionsRef (disconnectDevice e s) = lastRegionsRef s \<and>
   (connectedDevice s = Some dev \<and> udpSocket s = Some sock \<and> platformOS e = Native \<and>
    lastRegionsRef s = [Nil, Nil, Nil, Nil] \<and>
    top_region colors \<noteq> Nil \<and> right_region colors \<noteq> Nil \<and>
    bottom_region colors \<noteq> Nil \<and> left_region colors \<noteq> Nil \<longrightarrow>
      (\<exists>d. wire (sendRegionColors e colors s) = wire s @ [d] \<and>
           frameCommand d = 1 \<and> frameFlags d = 0 \<and>
           frameSeq d = (seqRef s + 1) mod 65536))"
proof -
  have init: "seqRef initialProvider = 0" "lastRegionsRef initialProvider = [Nil, Nil, Nil, Nil]"
    by (simp_all add: initialProvider_def)
  have conn: "seqRef (connectAndBind e device s) = seqRef s"
    "lastRegionsRef (connectAndBind e device s) = lastRegionsRef s"
    by (simp_all add: connectAndBind_def connectBound_refs connectDevice_refs)
  have full: "\<exists>d. wire (sendRegionColors e colors s) = wire s @ [d] \<and>
                 frameCommand d = 1 \<and> frameFlags d = 0 \<and>
                 frameSeq d = (seqRef s + 1) mod 65536"
    if c: "connectedDevice s = Some dev" and u: "udpSocket s = Some sock"
      and p: "platformOS e = Native" and l: "lastRegionsRef s = [Nil, Nil, Nil, Nil]"
      and ne: "top_region colors \<noteq> Nil" "right_region colors \<noteq> Nil"
        "bottom_region colors \<noteq> Nil" "left_region colors \<noteq> Nil"
  proof -
    have ch: "detectChanged (regionsOf colors) (lastRegionsRef s) 0 [] = [0, 1, 2, 3]"
      unfolding detectChanged_regions l using ne by (simp add: js_index_def regionsOf_def)
    show ?thesis
      by (simp add: sendRegionColors_transmits [OF c p u] ch buildPayload_full
          frameCommand_def frameFlags_def frameSeq_def)
  qed
  from init conn disconnectDevice_refs full show ?thesis by blast
qed

theorem connect_keeps_counter_and_baseline_witness:
  "connectedDevice connectedA = Some (deviceA\<lparr>isConnected := True\<rparr>) \<and>
   udpSocket connectedA = Some 0 \<and> platformOS nativeEnv = Native \<and>
   lastRegionsRef connectedA = [Nil, Nil, Nil, Nil] \<and>
   top_region grey \<noteq> Nil \<and> right_region grey \<noteq> Nil \<and>
   bottom_region grey \<noteq> Nil \<and> left_region grey \<noteq> Nil \<and>
   (\<exists>d. wire (sendRegionColors nativeEnv grey connectedA) = wire connectedA @ [d] \<and>
        frameCommand d = 1 \<and> frameFlags d = 0 \<and> frameSeq d = 1)"
proof -
  have h: "connectedDevice connectedA = Some (deviceA\<lparr>isConnected := True\<rparr>) \<and>
     udpSocket connectedA = Some 0 \<and> platformOS nativeEnv = Native \<and>
     lastRegionsRef connectedA = [Nil, Nil, Nil, Nil] \<and>
     top_region grey \<noteq> Nil \<and> right_region grey \<noteq> Nil \<and>
     bottom_region grey \<noteq> Nil \<and> left_region grey \<noteq> Nil"
    by (simp add: connectedA_eq nativeEnv_simps grey_def)
  have q: "seqRef connectedA = 0" by (simp add: connectedA_eq)
  from connect_keeps_counter_and_baseline
    [of nativeEnv deviceA connectedA "deviceA\<lparr>isConnected := True\<rparr>" 0 grey] h
  have "\<exists>d. wire (sendRegionColors nativeEnv grey connectedA) = wire connectedA @ [d] \<and>
            frameCommand d = 1 \<and> frameFlags d = 0 \<and>
            frameSeq d = (seqRef connectedA + 1) mod 65536"
    by blast
  with h show ?thesis by (simp add: q)
qed

text \<open>
  The claim as first stated has every connect reset the counter to 0 and the regions last
  sent to the unset value, and the first frame after a reconnect full. After one frame, a
  disconnect and a new connect, the counter is 1, the regions of that frame are still
  recorded, and a frame that changes one region goes out as a delta frame with sequence
  number 2.
\<close>

theorem reconnect_keeps_counter_and_baseline:
  "seqRef reconnectedA = 1 \<and>
   lastRegionsRef reconnectedA = [''#102030'', ''#102030'', ''#102030'', ''#102030''] \<and>
   wire (sendRegionColors nativeEnv greyRightWhite reconnectedA) =
     wire reconnectedA @
       [\<lparr>via = 1, packet = [171, 205, 1, 1, 0, 2, 104, 0, 2, 1, 1, 255, 255, 255],
         toPort = 7777, toAddress = ''192.168.1.20'', outcome = SendOk\<rparr>]"
proof -
  have c: "connectedDevice reconnectedA = Some (deviceA\<lparr>isConnected := True\<rparr>)"
    and u: "udpSocket reconnectedA = Some 1"
    and q: "seqRef reconnectedA = 1"
    and l: "lastRegionsRef reconnectedA = [''#102030'', ''#102030'', ''#102030'', ''#102030'']"
    by (simp_all add: reconnectedA_eq regionsOf_grey)
  have w: "wire (sendRegionColors nativeEnv greyRightWhite reconnectedA) =
     wire reconnectedA @
       [\<lparr>via = 1, packet = [171, 205, 1, 1, 0, 2, 104, 0, 2, 1, 1, 255, 255, 255],
         toPort = 7777, toAddress = ''192.168.1.20'', outcome = SendOk\<rparr>]"
    by (simp add: sendRegionColors_transmits [OF c nativeEnv_simps(1) u] l q detect_white_grey
        buildPayload_delta regionsOf_greyRightWhite hexToRgbBytes_white nativeEnv_simps
        deviceA_def)
  from q l w show ?thesis by simp
qed

section \<open>Resources that outlive their owner\<close>

text \<open>
  Claim C5 says that a connect to device B while device A is connected first tears down the
  session of A and releases its socket. On the code, the connect to B does replace the
  connected device and the socket and marks A as not connected, but the socket of A stays
  open: after the connect two sockets are open and the provider holds only the newer one.
  \<^verbatim>\<open>disconnectDevice\<close>, the other way out of a session, closes the socket.
\<close>

theorem reconnect_leaves_old_socket_open:
  "udpSocket connectedA = Some 0 \<and> openSockets connectedA = [0] \<and>
   connectedDevice (connectAndBind nativeEnv deviceB connectedA) =
     Some (deviceB\<lparr>isConnected := True\<rparr>) \<and>
   devices (connectAndBind nativeEnv deviceB connectedA) =
     [deviceA, deviceB\<lparr>isConnected := True\<rparr>] \<and>
   udpSocket (connectAndBind nativeEnv deviceB connectedA) = Some 1 \<and>
   openSockets (connectAndBind nativeEnv deviceB connectedA) = [0, 1] \<and>
   openSockets (disconnectDevice nativeEnv connectedA) = []"
  by (simp add: connectedA_eq connectAndBind_def connectDevice_def connectBound_def
      disconnectDevice_def nativeEnv_simps markConnected_def deviceA_def deviceB_def)

lemma stoppedScan_eq:
  "stoppedScan =
     initialProvider\<lparr>openSockets := [0], nextSocket := 1, scanIntervals := [0],
       scanTimeouts := [0],
       wire := [\<lparr>via = 0, packet = map of_char ''ESP_LED_DISCOVERY'', toPort = 7778,
                 toAddress = ''255.255.255.255'', outcome = SendOk\<rparr>]\<rparr>"
  by (simp add: stoppedScan_def run_def startScan_def scanBound_def stopScan_def
      sendDiscovery_def nativeEnv_simps initialProvider_def BROADCAST_PORT_def)

text \<open>
  Claim C7 says that after \<^verbatim>\<open>stopScan\<close> the repeating broadcast is cancelled and the socket
  released, so that no broadcast fires while the provider reports that it is not scanning.
  On the code, \<^verbatim>\<open>stopScan\<close> only clears the flag: the interval is still scheduled and the
  socket still open, and the next tick sends a discovery broadcast while \<open>isScanning\<close> is
  false. The timeout of 30 seconds, the other end of a scan, clears the interval and closes
  the socket, and no tick sends anything after it.
\<close>

theorem stopScan_leaves_broadcast_running:
  "isScanning stoppedScan = False \<and> scanIntervals stoppedScan = [0] \<and>
   openSockets stoppedScan = [0] \<and>
   wire (intervalTick nativeEnv 0 stoppedScan) =
     wire stoppedScan @
       [\<lparr>via = 0, packet = map of_char ''ESP_LED_DISCOVERY'', toPort = 7778,
         toAddress = ''255.255.255.255'', outcome = SendOk\<rparr>] \<and>
   isScanning (intervalTick nativeEnv 0 stoppedScan) = False \<and>
   scanIntervals (scanTimeout 0 stoppedScan) = [] \<and>
   openSockets (scanTimeout 0 stoppedScan) = [] \<and>
   isScanning (scanTimeout 0 stoppedScan) = False \<and>
   intervalTick nativeEnv 0 (scanTimeout 0 stoppedScan) = scanTimeout 0 stoppedScan"
  by (simp add: stoppedScan_eq intervalTick_def scanTimeout_def sendDiscovery_def
      nativeEnv_simps initialProvider_def BROADCAST_PORT_def)

end
